theory Spec2Isabelle
  imports Main
begin

section \<open>Functions emulator: data model\<close>

text \<open>
  The development embeds \<^verbatim>\<open>src/emulator/functionsEmulator.ts\<close>: the worker
  supervisor \<^verbatim>\<open>InvokeRuntime\<close>, the event waiter \<^verbatim>\<open>waitForLog\<close>, the trigger
  loader of \<^verbatim>\<open>connect\<close>, \<^verbatim>\<open>addFirestoreTrigger\<close>, \<^verbatim>\<open>stop\<close> and the request
  handler installed by \<^verbatim>\<open>start\<close>.

  JavaScript exceptions and promise rejections are values of \<open>js_error\<close>; a promise is
  pending, fulfilled with a value, or rejected with such an error.
\<close>

datatype js_error =
    SyntaxError
  | TypeError
  | ERR_HTTP_HEADERS_SENT
  | ERR_STREAM_WRITE_AFTER_END
  | RejectedWithoutReason

datatype 'a promise = Pending | Fulfilled 'a | Rejected js_error

text \<open>Settling a promise twice keeps the first outcome (\<^verbatim>\<open>resolve\<close> of a settled promise is a no-op).\<close>

definition resolve :: "'a \<Rightarrow> 'a promise \<Rightarrow> 'a promise" where
  "resolve v p = (case p of Pending \<Rightarrow> Fulfilled v | _ \<Rightarrow> p)"

definition reject :: "js_error \<Rightarrow> 'a promise \<Rightarrow> 'a promise" where
  "reject e p = (case p of Pending \<Rightarrow> Rejected e | _ \<Rightarrow> p)"

text \<open>Values produced by \<^verbatim>\<open>JSON.parse\<close>.\<close>

datatype json =
    JNull
  | JBool bool
  | JNum int
  | JStr string
  | JArr "json list"
  | JObj "(string \<times> json) list"

text \<open>
  \<^verbatim>\<open>EmulatedTriggerDefinition\<close>: \<open>httpsTrigger\<close> is the truthiness of the optional
  field of that name, \<open>eventTrigger\<close> the optional event description with its optional
  \<open>service\<close>.
\<close>

record event_trigger =
  service :: "string option"
  resource :: string

record emulated_trigger_definition =
  name :: string
  httpsTrigger :: bool
  eventTrigger :: "event_trigger option"

text \<open>\<^verbatim>\<open>_.get(definition, "eventTrigger.service", "unknown")\<close>\<close>

definition get_service :: "emulated_trigger_definition \<Rightarrow> string" where
  "get_service d =
     (case eventTrigger d of
        None \<Rightarrow> ''unknown''
      | Some et \<Rightarrow> (case service et of None \<Rightarrow> ''unknown'' | Some s \<Rightarrow> s))"

text \<open>An entry of the \<^verbatim>\<open>EmulatedTriggerMap\<close>; the handler reads its \<^verbatim>\<open>definition\<close>.\<close>

record emulated_trigger =
  trigger_definition :: emulated_trigger_definition

text \<open>
  \<^verbatim>\<open>EmulatorLog\<close>: level, type, text and the \<^verbatim>\<open>data\<close> object, of which the fields
  read by the supervisor, the loader and the handler are kept (\<^verbatim>\<open>socketPath\<close>,
  \<^verbatim>\<open>triggers\<close>, \<^verbatim>\<open>triggerDefinitions\<close>); a field that is absent is \<open>None\<close>.
\<close>

record log_data =
  data_socketPath :: "string option"
  data_triggers :: "(string \<times> emulated_trigger) list option"
  data_triggerDefinitions :: "emulated_trigger_definition list option"

record emulator_log =
  el_level :: string
  el_type :: string
  el_text :: string
  el_data :: log_data

definition no_data :: log_data where
  "no_data = \<lparr>data_socketPath = None, data_triggers = None, data_triggerDefinitions = None\<rparr>"

text \<open>\<^verbatim>\<open>new EmulatorLog("SYSTEM", "runtime-status", "killed")\<close>\<close>

definition killed_log :: emulator_log where
  "killed_log =
     \<lparr>el_level = ''SYSTEM'', el_type = ''runtime-status'', el_text = ''killed'',
      el_data = no_data\<rparr>"

text \<open>\<^verbatim>\<open>FunctionsRuntimeBundle\<close>\<close>

record runtime_bundle =
  ports_firestore :: "nat option"
  proto :: "json option"
  cwd :: string
  triggerId :: string
  bundle_projectId :: string
  disabled_features :: "string list option"

section \<open>The event waiter\<close>

text \<open>
  \<^verbatim>\<open>waitForLog(emitter, level, type, filter?)\<close> subscribes one listener to the
  \<^verbatim>\<open>"log"\<close> events of the emitter. \<open>waitForLog_listener\<close> is that listener, acting on
  the state of the returned promise; the executor never calls \<^verbatim>\<open>reject\<close>.
\<close>

definition waitForLog_listener ::
  "string \<Rightarrow> string \<Rightarrow> (emulator_log \<Rightarrow> bool) option \<Rightarrow> emulator_log promise \<Rightarrow> emulator_log
     \<Rightarrow> emulator_log promise" where
  "waitForLog_listener level type filt p el =
     (let levelTypeMatch = (el_level el = level \<and> el_type el = type);
          filterMatch = (case filt of None \<Rightarrow> True | Some f \<Rightarrow> f el)
      in if levelTypeMatch \<and> filterMatch then resolve el p else p)"

text \<open>The promise after the emitter has emitted the records \<open>logs\<close>, in this order.\<close>

definition waitForLog ::
  "emulator_log list \<Rightarrow> string \<Rightarrow> string \<Rightarrow> (emulator_log \<Rightarrow> bool) option \<Rightarrow> emulator_log promise" where
  "waitForLog logs level type filt = foldl (waitForLog_listener level type filt) Pending logs"

text \<open>
  What happens around one runtime: records emitted on \<^verbatim>\<open>runtime.events\<close>, the exit of
  the child process (an event of the child process, not of the emitter), and the events
  of the proxied HTTP exchange with the worker.
\<close>

datatype hevent =
    Log emulator_log
  | Exit int
  | RuntimeResponse "nat option" "(string \<times> string) list"
  | ResData string
  | ResClose
  | ResEnd
  | ReqError
  | PipeError

fun emitted :: "hevent list \<Rightarrow> emulator_log list" where
  "emitted [] = []"
| "emitted (Log el # evs) = el # emitted evs"
| "emitted (_ # evs) = emitted evs"

fun exit_codes :: "hevent list \<Rightarrow> int list" where
  "exit_codes [] = []"
| "exit_codes (Exit c # evs) = c # exit_codes evs"
| "exit_codes (_ # evs) = exit_codes evs"

definition matches :: "string \<Rightarrow> string \<Rightarrow> (emulator_log \<Rightarrow> bool) option \<Rightarrow> emulator_log \<Rightarrow> bool" where
  "matches level type filt el =
     (el_level el = level \<and> el_type el = type \<and> (case filt of None \<Rightarrow> True | Some f \<Rightarrow> f el))"

section \<open>The worker supervisor\<close>

text \<open>
  The call of \<^verbatim>\<open>spawn\<close> made by \<^verbatim>\<open>InvokeRuntime\<close>. Object spread lets a later
  source overwrite an earlier one, which is \<open>++\<close> on maps:
  \<^verbatim>\<open>{ node: nodeBinary, ...opts.env, ...process.env }\<close>. The path of the runtime
  entry point and \<^verbatim>\<open>JSON.stringify\<close> of the bundle are parameters.
\<close>

record invoke_opts =
  serializedTriggers :: "string option"
  env :: "(string \<rightharpoonup> string) option"

record spawn_call =
  command :: string
  spawn_args :: "string list"
  spawn_env :: "string \<rightharpoonup> string"
  spawn_cwd :: string

definition spread :: "(string \<rightharpoonup> string) option \<Rightarrow> (string \<rightharpoonup> string)" where
  "spread m = (case m of None \<Rightarrow> Map.empty | Some e \<Rightarrow> e)"

definition InvokeRuntime_spawn ::
  "string \<Rightarrow> (runtime_bundle \<Rightarrow> string) \<Rightarrow> (string \<rightharpoonup> string) \<Rightarrow> string \<Rightarrow> runtime_bundle
     \<Rightarrow> invoke_opts option \<Rightarrow> spawn_call" where
  "InvokeRuntime_spawn runtimeEntry stringify process_env nodeBinary frb opts =
     \<lparr>command = nodeBinary,
      spawn_args = [runtimeEntry, stringify frb,
              (case opts of None \<Rightarrow> '''' | Some opt \<Rightarrow>
                 (case serializedTriggers opt of None \<Rightarrow> '''' | Some s \<Rightarrow> s))],
      spawn_env = [''node'' \<mapsto> nodeBinary]
                    ++ spread (case opts of None \<Rightarrow> None | Some opt \<Rightarrow> env opt)
                    ++ process_env,
      spawn_cwd = cwd frb\<rparr>"

text \<open>
  Line framing of the two worker pipes. \<open>split_nl\<close> is \<^verbatim>\<open>value.split("\n")\<close>, which
  always returns at least one piece. What the supervisor does is recorded as a list of
  effects: a call of \<^verbatim>\<open>emitter.emit("log", el)\<close>, or a signal sent to the child
  (\<open>None\<close> is \<^verbatim>\<open>kill()\<close> without an argument, the default signal).

  \<^verbatim>\<open>emit\<close> calls the subscribers of the stream synchronously, and a subscriber that
  throws makes \<^verbatim>\<open>emit\<close> throw. The subscribers are a parameter: \<open>listener s el\<close> is
  their state after the record \<open>el\<close> and the error if one of them threw. A throw
  leaves the \<^verbatim>\<open>forEach\<close> and the \<^verbatim>\<open>data\<close> handler, so that nothing that follows
  in the handler happens: neither the synthetic record, nor the kill, nor the update of
  \<^verbatim>\<open>buffer.value\<close>, which keeps the chunk appended to it. A run holds the state of
  the subscribers, the effects so far and the error thrown, and is followed up to
  that error.
\<close>

fun split_nl :: "string \<Rightarrow> string list" where
  "split_nl [] = [[]]"
| "split_nl (c # cs) =
     (if c = CHR 0x0A then [] # split_nl cs
      else (case split_nl cs of [] \<Rightarrow> [[c]] | l # ls \<Rightarrow> (c # l) # ls))"

datatype effect = Emit emulator_log | Kill "string option"

record 's run =
  subscribers :: 's
  effects :: "effect list"
  thrown :: "js_error option"

definition emit ::
  "('s \<Rightarrow> emulator_log \<Rightarrow> 's \<times> js_error option) \<Rightarrow> emulator_log \<Rightarrow> 's run \<Rightarrow> 's run" where
  "emit listener el r =
     (case thrown r of
        Some _ \<Rightarrow> r
      | None \<Rightarrow>
          r\<lparr>subscribers := fst (listener (subscribers r) el),
            effects := effects r @ [Emit el],
            thrown := snd (listener (subscribers r) el)\<rparr>)"

definition runtime_kill :: "string option \<Rightarrow> 's run \<Rightarrow> 's run" where
  "runtime_kill signal r =
     (case thrown r of Some _ \<Rightarrow> r | None \<Rightarrow> r\<lparr>effects := effects r @ [Kill signal]\<rparr>)"

definition on_line ::
  "('s \<Rightarrow> emulator_log \<Rightarrow> 's \<times> js_error option) \<Rightarrow> (string \<Rightarrow> emulator_log) \<Rightarrow> 's run \<Rightarrow> string
     \<Rightarrow> 's run" where
  "on_line listener fromJSON r line =
     (let el = fromJSON line;
          r1 = emit listener el r
      in if el_level el = ''FATAL'' then runtime_kill None (emit listener killed_log r1) else r1)"

definition on_data ::
  "('s \<Rightarrow> emulator_log \<Rightarrow> 's \<times> js_error option) \<Rightarrow> (string \<Rightarrow> emulator_log) \<Rightarrow> string \<Rightarrow> string
     \<Rightarrow> 's run \<Rightarrow> string \<times> 's run" where
  "on_data listener fromJSON val buf r =
     (let val' = val @ buf;
          lines = split_nl val';
          r1 = (if length lines > 1 then foldl (on_line listener fromJSON) r (butlast lines) else r)
      in (case thrown r1 of None \<Rightarrow> last lines | Some _ \<Rightarrow> val', r1))"

text \<open>The two buffers of \<^verbatim>\<open>InvokeRuntime\<close> and the chunks that arrive on the pipes.\<close>

datatype pipe = Stderr | Stdout

record buffers =
  stderr_value :: string
  stdout_value :: string

definition pipe_data ::
  "('s \<Rightarrow> emulator_log \<Rightarrow> 's \<times> js_error option) \<Rightarrow> (string \<Rightarrow> emulator_log)
     \<Rightarrow> buffers \<times> 's run \<Rightarrow> pipe \<times> string \<Rightarrow> buffers \<times> 's run" where
  "pipe_data listener fromJSON s chunk =
     (case thrown (snd s) of
        Some _ \<Rightarrow> s
      | None \<Rightarrow>
          (case chunk of
             (Stderr, buf) \<Rightarrow>
               (let vr = on_data listener fromJSON (stderr_value (fst s)) buf (snd s)
                in ((fst s)\<lparr>stderr_value := fst vr\<rparr>, snd vr))
           | (Stdout, buf) \<Rightarrow>
               (let vr = on_data listener fromJSON (stdout_value (fst s)) buf (snd s)
                in ((fst s)\<lparr>stdout_value := fst vr\<rparr>, snd vr))))"

definition supervise ::
  "('s \<Rightarrow> emulator_log \<Rightarrow> 's \<times> js_error option) \<Rightarrow> (string \<Rightarrow> emulator_log) \<Rightarrow> 's
     \<Rightarrow> (pipe \<times> string) list \<Rightarrow> buffers \<times> 's run" where
  "supervise listener fromJSON s0 chunks =
     foldl (pipe_data listener fromJSON)
       (\<lparr>stderr_value = [], stdout_value = []\<rparr>,
        \<lparr>subscribers = s0, effects = [], thrown = None\<rparr>) chunks"

text \<open>\<^verbatim>\<open>kill: (signal) => { runtime.kill(signal); emitter.emit("log", killed) }\<close>\<close>

definition kill ::
  "('s \<Rightarrow> emulator_log \<Rightarrow> 's \<times> js_error option) \<Rightarrow> string option \<Rightarrow> 's run \<Rightarrow> 's run" where
  "kill listener signal r = emit listener killed_log (runtime_kill signal r)"

text \<open>Subscribers that keep no state and never throw.\<close>

definition quiet_listener :: "unit \<Rightarrow> emulator_log \<Rightarrow> unit \<times> js_error option" where
  "quiet_listener s el = (s, None)"

text \<open>
  The \<^verbatim>\<open>ready\<close> promise of the runtime: the waiter for the record
  \<^verbatim>\<open>SYSTEM/runtime-status\<close> with text \<^verbatim>\<open>ready\<close>, followed by the \<^verbatim>\<open>then\<close> that
  stores the announced socket path and yields no value.
\<close>

definition is_ready :: "emulator_log \<Rightarrow> bool" where
  "is_ready el = (el_text el = ''ready'')"

definition then_void :: "'a promise \<Rightarrow> unit promise" where
  "then_void p = (case p of Pending \<Rightarrow> Pending | Fulfilled _ \<Rightarrow> Fulfilled () | Rejected e \<Rightarrow> Rejected e)"

definition InvokeRuntime_ready :: "emulator_log list \<Rightarrow> unit promise" where
  "InvokeRuntime_ready logs =
     then_void (waitForLog logs ''SYSTEM'' ''runtime-status'' (Some is_ready))"

section \<open>The emulator object\<close>

text \<open>
  The fields of \<^verbatim>\<open>FunctionsEmulator\<close> that the modelled methods read or write.
  \<open>server\<close> is \<open>None\<close> until \<^verbatim>\<open>start\<close> has run; a listening server that was
  asked to close is \<open>Closing\<close> until its sockets are released, and \<open>Closed\<close> after
  that. \<open>console\<close> collects what \<^verbatim>\<open>log\<close>, \<^verbatim>\<open>logLabeled\<close> and
  \<^verbatim>\<open>logger.debug\<close> print, \<open>invocations\<close> the bundles handed to \<^verbatim>\<open>InvokeRuntime\<close>,
  \<open>puts\<close> the requests sent to the Firestore emulator.
\<close>

datatype server_state = Listening | Closing | Closed

datatype LogType = DEBUG | INFO | USER | BULLET | WARN | SUCCESS

datatype printed =
    LoggerDebug "string list"
  | LoggerInfo string
  | LogBullet string
  | LogWarning string
  | LogSuccess string
  | LogLabeledBullet string string
  | LogLabeledSuccess string string

record emulator_args =
  arg_port :: "nat option"
  arg_host :: "string option"
  quiet :: bool
  disabledRuntimeFeatures :: "string list option"

record emulator =
  args :: emulator_args
  port :: nat
  projectId :: string
  server :: "server_state option"
  functionsDir :: string
  nodeBinary :: string
  triggers :: "emulated_trigger_definition list"
  knownTriggerIDs :: "string \<rightharpoonup> bool"
  console :: "printed list"
  invocations :: "runtime_bundle list"
  puts :: "(string \<times> string) list"

definition print :: "printed \<Rightarrow> emulator \<Rightarrow> emulator" where
  "print out e = e\<lparr>console := console e @ [out]\<rparr>"

definition log :: "LogType \<Rightarrow> string \<Rightarrow> emulator \<Rightarrow> emulator" where
  "log type txt e =
     (if quiet (args e) \<and> type \<noteq> USER then print (LoggerDebug [txt]) e
      else (case type of
              DEBUG \<Rightarrow> print (LoggerDebug [txt]) e
            | INFO \<Rightarrow> print (LoggerInfo txt) e
            | USER \<Rightarrow> print (LoggerInfo txt) e
            | BULLET \<Rightarrow> print (LogBullet txt) e
            | WARN \<Rightarrow> print (LogWarning txt) e
            | SUCCESS \<Rightarrow> print (LogSuccess txt) e))"

definition logLabeled :: "LogType \<Rightarrow> string \<Rightarrow> string \<Rightarrow> emulator \<Rightarrow> emulator" where
  "logLabeled type label txt e =
     (if quiet (args e) then print (LoggerDebug [''['' @ label @ ''] '' @ txt]) e
      else (case type of
              BULLET \<Rightarrow> print (LogLabeledBullet label txt) e
            | SUCCESS \<Rightarrow> print (LogLabeledSuccess label txt) e
            | _ \<Rightarrow> e))"

text \<open>
  \<^verbatim>\<open>stop\<close> calls \<^verbatim>\<open>close\<close> on the server when there is one and returns; the
  \<^verbatim>\<open>async\<close> function has no \<^verbatim>\<open>await\<close> and no \<^verbatim>\<open>return\<close>, so its promise is
  fulfilled on return. \<open>server_close\<close> is the call, \<open>server_released\<close> the later
  completion of the close.
\<close>

definition server_close :: "server_state \<Rightarrow> server_state" where
  "server_close s = (case s of Listening \<Rightarrow> Closing | Closing \<Rightarrow> Closing | Closed \<Rightarrow> Closed)"

definition server_released :: "server_state \<Rightarrow> server_state" where
  "server_released s = (case s of Closing \<Rightarrow> Closed | Listening \<Rightarrow> Listening | Closed \<Rightarrow> Closed)"

definition stop :: "emulator \<Rightarrow> unit promise \<times> emulator" where
  "stop e =
     (Fulfilled (),
      (case server e of None \<Rightarrow> e | Some s \<Rightarrow> e\<lparr>server := Some (server_close s)\<rparr>))"

section \<open>Trigger loading and registration with the Firestore emulator\<close>

text \<open>
  What the loader uses and this file does not define is collected in \<open>externals\<close>:
  \<^verbatim>\<open>JSON.parse\<close> (\<open>None\<close> when it throws), \<^verbatim>\<open>getFunctionRegion\<close>,
  \<^verbatim>\<open>JSON.stringify\<close> at the three types it is applied to, \<^verbatim>\<open>clc.bold\<close>,
  \<^verbatim>\<open>Constants.SERVICE_FIRESTORE\<close>, the port that \<^verbatim>\<open>EmulatorRegistry.getPort\<close>
  returns for Firestore, and the outcome of \<^verbatim>\<open>request.put\<close> for a URL and a body:
  the error or the response body passed to the callback.
\<close>

datatype put_result = PutError string | PutBody string

record externals =
  JSON_parse :: "string \<Rightarrow> json option"
  getFunctionRegion :: "emulated_trigger_definition \<Rightarrow> string"
  stringify_definition :: "emulated_trigger_definition \<Rightarrow> string"
  stringify_eventTrigger :: "event_trigger option \<Rightarrow> string"
  stringify_string :: "string \<Rightarrow> string"
  clc_bold :: "string \<Rightarrow> string"
  SERVICE_FIRESTORE :: string
  firestorePort :: "nat option"
  request_put :: "string \<Rightarrow> string \<Rightarrow> put_result"

fun show_nat :: "nat \<Rightarrow> string" where
  "show_nat n =
     (if n < 10 then [char_of (48 + n)]
      else show_nat (n div 10) @ [char_of (48 + n mod 10)])"

declare show_nat.simps [simp del]

definition getHttpFunctionUrl :: "nat \<Rightarrow> string \<Rightarrow> string \<Rightarrow> string \<Rightarrow> string" where
  "getHttpFunctionUrl prt pid nm region =
     ''http://localhost:'' @ show_nat prt @ ''/'' @ pid @ ''/'' @ region @ ''/'' @ nm"

text \<open>
  \<^verbatim>\<open>addFirestoreTrigger\<close>. A port that is undefined or \<open>0\<close> is falsy. The promise is
  rejected without a reason on a transport error, stays pending when \<^verbatim>\<open>JSON.parse\<close>
  throws inside the callback, and is fulfilled otherwise; the success line is printed
  when the parsed body prints as \<^verbatim>\<open>{}\<close>, that is when it is the empty object.
\<close>

definition addFirestoreTrigger ::
  "externals \<Rightarrow> string \<Rightarrow> emulated_trigger_definition \<Rightarrow> emulator \<Rightarrow> unit promise \<times> emulator" where
  "addFirestoreTrigger ext pid d e =
     (case firestorePort ext of
        None \<Rightarrow>
          (Fulfilled (),
           log WARN (''Ignoring trigger \"'' @ name d
                       @ ''\" because the Cloud Firestore emulator is not running.'') e)
      | Some fp \<Rightarrow>
          if fp = 0 then
            (Fulfilled (),
             log WARN (''Ignoring trigger \"'' @ name d
                         @ ''\" because the Cloud Firestore emulator is not running.'') e)
          else
            (let bundle = stringify_eventTrigger ext (eventTrigger d);
                 e1 = logLabeled BULLET ''functions''
                        (''Setting up Cloud Firestore trigger \"'' @ name d @ ''\"'') e;
                 e2 = print (LoggerDebug [''addFirestoreTrigger'', stringify_string ext bundle]) e1;
                 url = ''http://localhost:'' @ show_nat fp @ ''/emulator/v1/projects/'' @ pid
                         @ ''/triggers/'' @ name d;
                 e3 = e2\<lparr>puts := puts e2 @ [(url, bundle)]\<rparr>
             in (case request_put ext url bundle of
                   PutError err \<Rightarrow>
                     (Rejected RejectedWithoutReason,
                      log WARN (''Error adding trigger: '' @ err) e3)
                 | PutBody body \<Rightarrow>
                     (case JSON_parse ext body of
                        None \<Rightarrow> (Pending, e3)
                      | Some j \<Rightarrow>
                          (Fulfilled (),
                           if j = JObj [] then
                             logLabeled SUCCESS ''functions''
                               (''Trigger \"'' @ name d
                                  @ ''\" has been acknowledged by the Cloud Firestore emulator.'') e3
                           else e3)))))"

text \<open>
  The loop of \<^verbatim>\<open>loadTriggers\<close> over \<^verbatim>\<open>toSetup\<close>. An \<^verbatim>\<open>await\<close> of a rejected
  promise throws out of the loop and rejects \<^verbatim>\<open>loadTriggers\<close>; an \<^verbatim>\<open>await\<close> of a
  promise that stays pending never resumes.
\<close>

fun setupTriggers :: "externals \<Rightarrow> emulated_trigger_definition list \<Rightarrow> emulator \<Rightarrow> unit promise \<times> emulator" where
  "setupTriggers ext [] e = (Fulfilled (), e)"
| "setupTriggers ext (d # ds) e =
     (if httpsTrigger d then
        (let region = getFunctionRegion ext d;
             url = getHttpFunctionUrl (port e) (projectId e) (name d) region;
             e1 = logLabeled BULLET ''functions''
                    (''HTTP trigger initialized at '' @ clc_bold ext url) e
         in setupTriggers ext ds (e1\<lparr>knownTriggerIDs := (knownTriggerIDs e1)(name d \<mapsto> True)\<rparr>))
      else
        (let svc = get_service d
         in if svc = SERVICE_FIRESTORE ext then
              (case addFirestoreTrigger ext (projectId e) d e of
                 (Fulfilled _, e1) \<Rightarrow>
                   setupTriggers ext ds (e1\<lparr>knownTriggerIDs := (knownTriggerIDs e1)(name d \<mapsto> True)\<rparr>)
               | (Rejected r, e1) \<Rightarrow> (Rejected r, e1)
               | (Pending, e1) \<Rightarrow> (Pending, e1))
            else
              (let e1 = log DEBUG (''Unsupported trigger: '' @ stringify_definition ext d) e;
                   e2 = log WARN (''Ignoring trigger \"'' @ name d @ ''\" because the service \"''
                                    @ svc @ ''\" is not yet supported.'') e1
               in setupTriggers ext ds (e2\<lparr>knownTriggerIDs := (knownTriggerIDs e2)(name d \<mapsto> True)\<rparr>))))"

text \<open>
  \<^verbatim>\<open>loadTriggers\<close> of \<^verbatim>\<open>connect\<close>, for a diagnostic runtime whose events are \<open>evs\<close>.
  The subscriber that forwards the runtime's records to the console leaves every field
  but the console alone and is not part of the model.
\<close>

definition diagnosticBundle :: "emulator \<Rightarrow> runtime_bundle" where
  "diagnosticBundle e =
     \<lparr>ports_firestore = None, proto = None, cwd = functionsDir e, triggerId = [],
      bundle_projectId = projectId e, disabled_features = disabledRuntimeFeatures (args e)\<rparr>"

text \<open>
  \<^verbatim>\<open>this.knownTriggerIDs[name]\<close> read for its truthiness. The table is a plain object:
  a name that it does not hold itself is looked up in \<^verbatim>\<open>Object.prototype\<close>, all of
  whose properties are truthy, so these names count as known from the start.
\<close>

definition Object_prototype_names :: "string list" where
  "Object_prototype_names =
     [''constructor'', ''__defineGetter__'', ''__defineSetter__'', ''hasOwnProperty'',
      ''__lookupGetter__'', ''__lookupSetter__'', ''isPrototypeOf'', ''propertyIsEnumerable'',
      ''toString'', ''valueOf'', ''__proto__'', ''toLocaleString'']"

definition known :: "emulator \<Rightarrow> string \<Rightarrow> bool" where
  "known e n =
     (case knownTriggerIDs e n of Some b \<Rightarrow> b | None \<Rightarrow> n \<in> set Object_prototype_names)"

definition loadTriggers :: "externals \<Rightarrow> hevent list \<Rightarrow> emulator \<Rightarrow> unit promise \<times> emulator" where
  "loadTriggers ext evs e =
     (let e0 = e\<lparr>invocations := invocations e @ [diagnosticBundle e]\<rparr>
      in case waitForLog (emitted evs) ''SYSTEM'' ''triggers-parsed'' None of
           Pending \<Rightarrow> (Pending, e0)
         | Rejected r \<Rightarrow> (Rejected r, e0)
         | Fulfilled triggerParseEvent \<Rightarrow>
             (case data_triggerDefinitions (el_data triggerParseEvent) of
                None \<Rightarrow> (Rejected TypeError, e0)
              | Some triggerDefinitions \<Rightarrow>
                  (let toSetup = filter (\<lambda>d. \<not> known e0 (name d)) triggerDefinitions
                   in setupTriggers ext toSetup (e0\<lparr>triggers := triggerDefinitions\<rparr>))))"

section \<open>The outbound response\<close>

text \<open>
  The handler writes to an express response, an \<^verbatim>\<open>http.ServerResponse\<close> of Node. Its
  state is the status code and the headers set so far, the flags \<^verbatim>\<open>headersSent\<close> and
  \<^verbatim>\<open>finished\<close>, and \<open>wire\<close>, what has been sent to the client: the head (status line
  and headers), body chunks, and the end of the response. The head is sent with the
  first write or with the end; \<^verbatim>\<open>setHeader\<close> throws once the head is sent; a write
  after the end is an error and sends nothing; \<^verbatim>\<open>end\<close> on a finished response does
  nothing. \<^verbatim>\<open>send\<close> and \<^verbatim>\<open>json\<close> of express set headers first, so they throw once the
  head is sent, and end the response with the body otherwise; of the headers they
  compute, \<^verbatim>\<open>Content-Type\<close> and \<^verbatim>\<open>Content-Length\<close> are kept here.
\<close>

text \<open>
  Header names are case-insensitive: a header is stored under its name in lower case,
  with the name as it was last given, and setting a header that is there replaces it in
  its place.
\<close>

definition lower_char :: "char \<Rightarrow> char" where
  "lower_char c =
     (let n = (of_char c :: nat) in if 65 \<le> n \<and> n \<le> 90 then char_of (n + 32) else c)"

definition toLowerCase :: "string \<Rightarrow> string" where
  "toLowerCase s = map lower_char s"

fun set_header :: "string \<Rightarrow> string \<Rightarrow> (string \<times> string) list \<Rightarrow> (string \<times> string) list" where
  "set_header k v [] = [(k, v)]"
| "set_header k v ((k', v') # hs) =
     (if toLowerCase k' = toLowerCase k then (k, v) # hs else (k', v') # set_header k v hs)"

definition get_header :: "string \<Rightarrow> (string \<times> string) list \<Rightarrow> string option" where
  "get_header k hs = map_of (map (\<lambda>(n, v). (toLowerCase n, v)) hs) (toLowerCase k)"

datatype wire_item = WHead nat "(string \<times> string) list" | WBody string | WEnd

record response =
  statusCode :: nat
  headers :: "(string \<times> string) list"
  headersSent :: bool
  finished :: bool
  wire :: "wire_item list"

definition res_status :: "nat \<Rightarrow> response \<Rightarrow> response" where
  "res_status code r = r\<lparr>statusCode := code\<rparr>"

definition setHeader :: "string \<Rightarrow> string \<Rightarrow> response \<Rightarrow> js_error + response" where
  "setHeader k v r =
     (if headersSent r then Inl ERR_HTTP_HEADERS_SENT
      else Inr (r\<lparr>headers := set_header k v (headers r)\<rparr>))"

definition flushHeaders :: "response \<Rightarrow> response" where
  "flushHeaders r =
     (if headersSent r then r
      else r\<lparr>headersSent := True, wire := wire r @ [WHead (statusCode r) (headers r)]\<rparr>)"

definition res_write :: "string \<Rightarrow> response \<Rightarrow> js_error + response" where
  "res_write buf r =
     (if finished r then Inl ERR_STREAM_WRITE_AFTER_END
      else Inr (let r1 = flushHeaders r in r1\<lparr>wire := wire r1 @ [WBody buf]\<rparr>))"

definition res_end :: "string option \<Rightarrow> response \<Rightarrow> response" where
  "res_end body r =
     (if finished r then r
      else (let r1 = flushHeaders r
            in r1\<lparr>finished := True,
                  wire := wire r1 @ (case body of None \<Rightarrow> [] | Some b \<Rightarrow> [WBody b]) @ [WEnd]\<rparr>))"

definition default_header :: "string \<Rightarrow> string \<Rightarrow> (string \<times> string) list \<Rightarrow> (string \<times> string) list" where
  "default_header k v hs = (if get_header k hs = None then set_header k v hs else hs)"

definition send_with :: "string \<Rightarrow> string \<Rightarrow> response \<Rightarrow> js_error + response" where
  "send_with contentType body r =
     (if headersSent r then Inl ERR_HTTP_HEADERS_SENT
      else Inr (res_end (Some body)
                  (r\<lparr>headers := set_header ''Content-Length'' (show_nat (length body))
                                  (default_header ''Content-Type'' contentType (headers r))\<rparr>)))"

definition res_send :: "string \<Rightarrow> response \<Rightarrow> js_error + response" where
  "res_send body r = send_with ''text/html; charset=utf-8'' body r"

definition res_json :: "string \<Rightarrow> response \<Rightarrow> js_error + response" where
  "res_json body r = send_with ''application/json; charset=utf-8'' body r"

text \<open>
  The response as the handler receives it: the first middleware of \<^verbatim>\<open>start\<close> has set
  the three CORS headers, nothing has been sent.
\<close>

definition cors_response :: response where
  "cors_response =
     \<lparr>statusCode = 200,
      headers =
        set_header ''Access-Control-Allow-Methods'' ''GET,OPTIONS,POST''
          (set_header ''Access-Control-Allow-Headers''
             ''Origin, X-Requested-With, Content-Type, Authorization, Accept''
             (set_header ''Access-Control-Allow-Origin'' ''*'' [])),
      headersSent = False, finished = False, wire = []\<rparr>"

section \<open>The request handler\<close>

text \<open>
  \<open>request\<close> holds what the handler reads of the express request. The handler is an
  \<^verbatim>\<open>async\<close> function: it runs until its first \<^verbatim>\<open>await\<close> (\<open>handler_start\<close>), and
  each later event of the runtime or of the connection to the worker runs the
  subscribed listeners and then the handler as far as its next pending \<^verbatim>\<open>await\<close>
  (\<open>handler_event\<close>). \<open>phase\<close> is where the handler waits: on \<^verbatim>\<open>runtime.ready\<close>,
  on the \<^verbatim>\<open>triggers-parsed\<close> record, on \<^verbatim>\<open>runtime.exit\<close> as a background function
  or as an HTTP function; or it has returned, or thrown (its promise is rejected).
  The lines the handler prints with \<^verbatim>\<open>this.log\<close> are not part of the state.
\<close>

record request =
  req_method :: string
  req_url :: string
  req_headers :: "(string \<times> string) list"
  trigger_name :: string
  rawBody :: string

record runtime_request =
  rq_method :: string
  rq_path :: string
  rq_headers :: "(string \<times> string) list"
  rq_socketPath :: "string option"
  rq_written :: "string list"

datatype phase =
    AwaitReady
  | AwaitTriggerLog
  | AwaitExitBackground
  | AwaitExitHttp
  | Returned
  | Threw js_error

record hstate =
  phase :: phase
  res :: response
  spawned :: "runtime_bundle list"
  readyLog :: "emulator_log promise"
  triggerLogPromise :: "emulator_log promise"
  exit :: "int promise"
  tracked :: "(string \<times> string) list"
  runtimeReq :: "runtime_request option"
  runtimeRes :: "(nat option \<times> (string \<times> string) list) option"
  uncaught :: "js_error list"

definition EVENT_INVOKE :: string where
  "EVENT_INVOKE = ''functions:invoke''"

definition acknowledged :: string where
  \<open>acknowledged = ''{"status":"acknowledged"}''\<close>

text \<open>\<^verbatim>\<open>runtime.metadata.socketPath\<close>, stored by the \<^verbatim>\<open>then\<close> of the \<^verbatim>\<open>ready\<close> promise.\<close>

definition metadata_socketPath :: "hstate \<Rightarrow> string option" where
  "metadata_socketPath st =
     (case readyLog st of Fulfilled el \<Rightarrow> data_socketPath (el_data el) | _ \<Rightarrow> None)"

definition startFunctionRuntime :: "externals \<Rightarrow> emulator \<Rightarrow> string \<Rightarrow> json option \<Rightarrow> runtime_bundle" where
  "startFunctionRuntime ext e triggerName prt =
     \<lparr>ports_firestore = firestorePort ext, proto = prt, cwd = functionsDir e,
      triggerId = triggerName, bundle_projectId = projectId e,
      disabled_features = disabledRuntimeFeatures (args e)\<rparr>"

definition handler_init :: hstate where
  "handler_init =
     \<lparr>phase = AwaitReady, res = cors_response, spawned = [], readyLog = Pending,
      triggerLogPromise = Pending, exit = Pending, tracked = [], runtimeReq = None,
      runtimeRes = None, uncaught = []\<rparr>"

text \<open>
  Up to the first \<^verbatim>\<open>await\<close>: \<^verbatim>\<open>reqBody ? JSON.parse(reqBody) : undefined\<close>, where a
  throw of \<^verbatim>\<open>JSON.parse\<close> leaves the handler before any runtime is started, then
  \<^verbatim>\<open>startFunctionRuntime\<close> and the two subscriptions.
\<close>

definition handler_start :: "externals \<Rightarrow> emulator \<Rightarrow> request \<Rightarrow> hstate" where
  "handler_start ext e req =
     (let reqBody = rawBody req
      in case (if reqBody \<noteq> []
               then (case JSON_parse ext reqBody of None \<Rightarrow> Inl SyntaxError | Some j \<Rightarrow> Inr (Some j))
               else Inr None) of
           Inl err \<Rightarrow> handler_init\<lparr>phase := Threw err\<rparr>
         | Inr prt \<Rightarrow>
             handler_init\<lparr>spawned := [startFunctionRuntime ext e (trigger_name req) prt]\<rparr>)"

text \<open>
  \<^verbatim>\<open>forwardStatusAndHeaders\<close>: the status is set at every call
  (\<^verbatim>\<open>runtimeRes.statusCode || 200\<close>), the headers with a truthy value are set while
  the head is not sent.
\<close>

fun setHeaders :: "(string \<times> string) list \<Rightarrow> response \<Rightarrow> js_error + response" where
  "setHeaders [] r = Inr r"
| "setHeaders ((k, v) # kvs) r =
     (if v \<noteq> [] then (case setHeader k v r of Inl err \<Rightarrow> Inl err | Inr r1 \<Rightarrow> setHeaders kvs r1)
      else setHeaders kvs r)"

definition forwardStatusAndHeaders ::
  "nat option \<times> (string \<times> string) list \<Rightarrow> response \<Rightarrow> js_error + response" where
  "forwardStatusAndHeaders rr r =
     (let r1 = res_status (case fst rr of None \<Rightarrow> 200 | Some c \<Rightarrow> if c = 0 then 200 else c) r
      in if \<not> headersSent r1 then setHeaders (snd rr) r1 else Inr r1)"

text \<open>
  A record on \<^verbatim>\<open>runtime.events\<close> reaches, in the order of subscription, the waiter of
  \<^verbatim>\<open>ready\<close>, the subscriber that sends the text of a FATAL record, and the waiter of
  \<^verbatim>\<open>triggers-parsed\<close>. A listener that throws keeps the later ones from running; the
  error is collected in \<open>uncaught\<close>.
\<close>

definition on_log :: "hstate \<Rightarrow> emulator_log \<Rightarrow> hstate" where
  "on_log st el =
     (let st1 = st\<lparr>readyLog :=
                  waitForLog_listener ''SYSTEM'' ''runtime-status'' (Some is_ready) (readyLog st) el\<rparr>
      in case (if el_level el = ''FATAL'' then res_send (el_text el) (res st1) else Inr (res st1)) of
           Inl err \<Rightarrow> st1\<lparr>uncaught := uncaught st1 @ [err]\<rparr>
         | Inr r \<Rightarrow>
             st1\<lparr>res := r,
                 triggerLogPromise :=
                   waitForLog_listener ''SYSTEM'' ''triggers-parsed'' None (triggerLogPromise st1) el\<rparr>)"

definition on_res_data :: "hstate \<Rightarrow> string \<Rightarrow> hstate" where
  "on_res_data st buf =
     (case runtimeRes st of
        None \<Rightarrow> st
      | Some rr \<Rightarrow>
          (case forwardStatusAndHeaders rr (res st) of
             Inl err \<Rightarrow> st\<lparr>uncaught := uncaught st @ [err]\<rparr>
           | Inr r1 \<Rightarrow>
               (case res_write buf r1 of
                  Inl err \<Rightarrow> st\<lparr>res := r1, uncaught := uncaught st @ [err]\<rparr>
                | Inr r2 \<Rightarrow> st\<lparr>res := r2\<rparr>)))"

definition on_res_end :: "hstate \<Rightarrow> hstate" where
  "on_res_end st =
     (case runtimeRes st of
        None \<Rightarrow> st
      | Some rr \<Rightarrow>
          (case forwardStatusAndHeaders rr (res st) of
             Inl err \<Rightarrow> st\<lparr>uncaught := uncaught st @ [err]\<rparr>
           | Inr r1 \<Rightarrow> st\<lparr>res := res_end None r1\<rparr>))"

definition on_error :: "hstate \<Rightarrow> hstate" where
  "on_error st =
     (case runtimeReq st of None \<Rightarrow> st | Some _ \<Rightarrow> st\<lparr>res := res_end None (res st)\<rparr>)"

text \<open>The handler between its \<^verbatim>\<open>await\<close>s.\<close>

definition step_ready :: "hstate \<Rightarrow> hstate" where
  "step_ready st =
     (if phase st = AwaitReady then
        (case readyLog st of
           Pending \<Rightarrow> st
         | Fulfilled _ \<Rightarrow> st\<lparr>phase := AwaitTriggerLog\<rparr>
         | Rejected err \<Rightarrow> st\<lparr>phase := Threw err\<rparr>)
      else st)"

definition step_lookup :: "request \<Rightarrow> hstate \<Rightarrow> hstate" where
  "step_lookup req st =
     (if phase st = AwaitTriggerLog then
        (case triggerLogPromise st of
           Pending \<Rightarrow> st
         | Rejected err \<Rightarrow> st\<lparr>phase := Threw err\<rparr>
         | Fulfilled triggerLog \<Rightarrow>
             (case data_triggers (el_data triggerLog) of
                None \<Rightarrow> st\<lparr>phase := Threw TypeError\<rparr>
              | Some triggerMap \<Rightarrow>
                  (case map_of triggerMap (trigger_name req) of
                     None \<Rightarrow> st\<lparr>phase := Threw TypeError\<rparr>
                   | Some trigger \<Rightarrow>
                       (let isHttpsTrigger = httpsTrigger (trigger_definition trigger);
                            st1 = st\<lparr>tracked := tracked st @
                                     [(EVENT_INVOKE,
                                       if isHttpsTrigger then ''https''
                                       else get_service (trigger_definition trigger))]\<rparr>
                        in if \<not> isHttpsTrigger then st1\<lparr>phase := AwaitExitBackground\<rparr>
                           else st1\<lparr>runtimeReq :=
                                      Some \<lparr>rq_method = req_method req, rq_path = req_url req,
                                            rq_headers = req_headers req,
                                            rq_socketPath = metadata_socketPath st,
                                            rq_written = (if rawBody req \<noteq> [] then [rawBody req] else [])\<rparr>,
                                    phase := AwaitExitHttp\<rparr>))))
      else st)"

definition step_exit :: "hstate \<Rightarrow> hstate" where
  "step_exit st =
     (case exit st of
        Fulfilled _ \<Rightarrow>
          (if phase st = AwaitExitBackground then
             (case res_json acknowledged (res st) of
                Inl err \<Rightarrow> st\<lparr>phase := Threw err\<rparr>
              | Inr r \<Rightarrow> st\<lparr>res := r, phase := Returned\<rparr>)
           else if phase st = AwaitExitHttp then st\<lparr>phase := Returned\<rparr>
           else st)
      | _ \<Rightarrow> st)"

definition advance :: "request \<Rightarrow> hstate \<Rightarrow> hstate" where
  "advance req st = step_exit (step_lookup req (step_ready st))"

definition handler_event :: "request \<Rightarrow> hstate \<Rightarrow> hevent \<Rightarrow> hstate" where
  "handler_event req st ev =
     (if spawned st = [] then st
      else advance req
             (case ev of
                Log el \<Rightarrow> on_log st el
              | Exit code \<Rightarrow> st\<lparr>exit := resolve code (exit st)\<rparr>
              | RuntimeResponse sc hs \<Rightarrow>
                  (if runtimeReq st \<noteq> None \<and> runtimeRes st = None
                   then st\<lparr>runtimeRes := Some (sc, hs)\<rparr> else st)
              | ResData buf \<Rightarrow> on_res_data st buf
              | ResClose \<Rightarrow> on_res_end st
              | ResEnd \<Rightarrow> on_res_end st
              | ReqError \<Rightarrow> on_error st
              | PipeError \<Rightarrow> on_error st))"

definition handler :: "externals \<Rightarrow> emulator \<Rightarrow> request \<Rightarrow> hevent list \<Rightarrow> hstate" where
  "handler ext e req evs = foldl (handler_event req) (handler_start ext e req) evs"

text \<open>
  The subscribers that the handler adds to \<^verbatim>\<open>runtime.events\<close>, as the supervisor
  sees them: their state is the state of the handler, and the record is thrown back
  into \<^verbatim>\<open>emit\<close> when the FATAL subscriber's \<^verbatim>\<open>res.send\<close> throws.
\<close>

definition handler_listener :: "hstate \<Rightarrow> emulator_log \<Rightarrow> hstate \<times> js_error option" where
  "handler_listener st el =
     (on_log st el,
      if el_level el = ''FATAL''
      then (case res_send (el_text el) (res st) of Inl err \<Rightarrow> Some err | Inr _ \<Rightarrow> None)
      else None)"

section \<open>Notions used to state the properties\<close>

text \<open>
  The two waiters of the handler as functions of the records emitted so far, the exit
  promise as a function of the events, and the entry of the requested trigger in a
  \<^verbatim>\<open>triggers-parsed\<close> record (\<open>None\<close> where \<^verbatim>\<open>triggerMap[triggerName]\<close> or the map
  itself is undefined).
\<close>

definition ready_wait :: "emulator_log list \<Rightarrow> emulator_log promise" where
  "ready_wait logs = waitForLog logs ''SYSTEM'' ''runtime-status'' (Some is_ready)"

definition triggers_wait :: "emulator_log list \<Rightarrow> emulator_log promise" where
  "triggers_wait logs = waitForLog logs ''SYSTEM'' ''triggers-parsed'' None"

definition first_exit :: "hevent list \<Rightarrow> int promise" where
  "first_exit evs = (case exit_codes evs of [] \<Rightarrow> Pending | c # _ \<Rightarrow> Fulfilled c)"

definition lookup_trigger :: "request \<Rightarrow> emulator_log \<Rightarrow> emulated_trigger option" where
  "lookup_trigger req el =
     (case data_triggers (el_data el) of None \<Rightarrow> None | Some m \<Rightarrow> map_of m (trigger_name req))"

definition is_fatal :: "emulator_log \<Rightarrow> bool" where
  "is_fatal el = (el_level el = ''FATAL'')"

text \<open>
  The response after \<^verbatim>\<open>send\<close> or \<^verbatim>\<open>json\<close> on the untouched response, and the
  response when nothing but the FATAL subscriber has written to it: untouched without
  a FATAL record, ended with the text of the first one otherwise.
\<close>

definition sent :: "string \<Rightarrow> string \<Rightarrow> response" where
  "sent contentType body =
     res_end (Some body)
       (cors_response\<lparr>headers := set_header ''Content-Length'' (show_nat (length body))
                         (default_header ''Content-Type'' contentType (headers cors_response))\<rparr>)"

definition fatal_res :: "emulator_log list \<Rightarrow> response" where
  "fatal_res logs =
     (case find is_fatal logs of
        None \<Rightarrow> cors_response
      | Some el \<Rightarrow> sent ''text/html; charset=utf-8'' (el_text el))"

definition ack_res :: response where
  "ack_res = sent ''application/json; charset=utf-8'' acknowledged"

text \<open>How many heads and how many ends have been sent to the client.\<close>

fun heads :: "wire_item list \<Rightarrow> nat" where
  "heads [] = 0"
| "heads (WHead sc hs # w) = Suc (heads w)"
| "heads (_ # w) = heads w"

fun ends :: "wire_item list \<Rightarrow> nat" where
  "ends [] = 0"
| "ends (WEnd # w) = Suc (ends w)"
| "ends (_ # w) = ends w"

text \<open>\<^verbatim>\<open>runtimeRes.statusCode || 200\<close> and the headers after \<^verbatim>\<open>forwardStatusAndHeaders\<close>.\<close>

definition status_or_200 :: "nat option \<Rightarrow> nat" where
  "status_or_200 sc = (case sc of None \<Rightarrow> 200 | Some c \<Rightarrow> if c = 0 then 200 else c)"

fun forwarded :: "(string \<times> string) list \<Rightarrow> (string \<times> string) list \<Rightarrow> (string \<times> string) list" where
  "forwarded [] hs = hs"
| "forwarded ((k, v) # kvs) hs = forwarded kvs (if v \<noteq> [] then set_header k v hs else hs)"

text \<open>
  In a list of effects, every FATAL record emitted is followed at once by the synthetic
  \<^verbatim>\<open>killed\<close> record and the default-signal kill.
\<close>

definition fatal_followed :: "effect list \<Rightarrow> bool" where
  "fatal_followed effs =
     (\<forall>i el. i < length effs \<and> effs ! i = Emit el \<and> el_level el = ''FATAL'' \<longrightarrow>
        Suc (Suc i) < length effs \<and> effs ! Suc i = Emit killed_log \<and> effs ! Suc (Suc i) = Kill None)"

text \<open>
  A response is well formed when the head was sent exactly if \<^verbatim>\<open>headersSent\<close> is set,
  the end exactly if \<^verbatim>\<open>finished\<close> is set, each at most once, and a response whose
  head is not sent is the untouched response. \<open>grows r r'\<close>: \<open>r'\<close> is well formed,
  it has sent what \<open>r\<close> has sent and possibly more, and nothing more when \<open>r\<close> was
  finished.
\<close>

definition res_ok :: "response \<Rightarrow> bool" where
  "res_ok r =
     (heads (wire r) = (if headersSent r then 1 else 0)
      \<and> ends (wire r) = (if finished r then 1 else 0)
      \<and> (finished r \<longrightarrow> headersSent r)
      \<and> (\<not> headersSent r \<longrightarrow> r = cors_response))"

definition grows :: "response \<Rightarrow> response \<Rightarrow> bool" where
  "grows r r' =
     (res_ok r' \<and> (\<exists>w. wire r' = wire r @ w) \<and> (finished r \<longrightarrow> wire r' = wire r))"

text \<open>
  Where the handler stands as a function of its three promises, and the runs in which
  nothing but the FATAL subscriber and the acknowledgement can write to the response:
  the requested trigger, once looked up, is not an HTTP trigger, and no FATAL record
  has been emitted if the worker of a background trigger has exited.
\<close>

definition phase_of ::
  "request \<Rightarrow> emulator_log promise \<Rightarrow> emulator_log promise \<Rightarrow> int promise \<Rightarrow> phase" where
  "phase_of req rl tp ex =
     (case rl of
        Pending \<Rightarrow> AwaitReady
      | Rejected err \<Rightarrow> Threw err
      | Fulfilled _ \<Rightarrow>
          (case tp of
             Pending \<Rightarrow> AwaitTriggerLog
           | Rejected err \<Rightarrow> Threw err
           | Fulfilled el \<Rightarrow>
               (case lookup_trigger req el of
                  None \<Rightarrow> Threw TypeError
                | Some trigger \<Rightarrow>
                    if httpsTrigger (trigger_definition trigger)
                    then (case ex of Fulfilled _ \<Rightarrow> Returned | _ \<Rightarrow> AwaitExitHttp)
                    else (case ex of Fulfilled _ \<Rightarrow> Returned | _ \<Rightarrow> AwaitExitBackground))))"

definition undisturbed ::
  "request \<Rightarrow> emulator_log promise \<Rightarrow> emulator_log promise \<Rightarrow> int promise \<Rightarrow> bool \<Rightarrow> bool" where
  "undisturbed req rl tp ex nofatal =
     (case rl of
        Fulfilled _ \<Rightarrow>
          (case tp of
             Fulfilled el \<Rightarrow>
               (case lookup_trigger req el of
                  None \<Rightarrow> True
                | Some trigger \<Rightarrow>
                    \<not> httpsTrigger (trigger_definition trigger)
                    \<and> (case ex of Fulfilled _ \<Rightarrow> nofatal | _ \<Rightarrow> True))
           | _ \<Rightarrow> True)
      | _ \<Rightarrow> True)"

definition settles :: "'a promise \<Rightarrow> 'a promise \<Rightarrow> bool" where
  "settles p p' = (p = Pending \<or> p' = p)"

text \<open>The three steps of the handler on the phase alone.\<close>

definition phase_ready :: "emulator_log promise \<Rightarrow> phase \<Rightarrow> phase" where
  "phase_ready rl p =
     (if p = AwaitReady
      then (case rl of Pending \<Rightarrow> p | Fulfilled _ \<Rightarrow> AwaitTriggerLog | Rejected err \<Rightarrow> Threw err)
      else p)"

definition phase_lookup :: "request \<Rightarrow> emulator_log promise \<Rightarrow> phase \<Rightarrow> phase" where
  "phase_lookup req tp p =
     (if p = AwaitTriggerLog
      then (case tp of
              Pending \<Rightarrow> p
            | Rejected err \<Rightarrow> Threw err
            | Fulfilled el \<Rightarrow>
                (case lookup_trigger req el of
                   None \<Rightarrow> Threw TypeError
                 | Some trigger \<Rightarrow>
                     if httpsTrigger (trigger_definition trigger) then AwaitExitHttp
                     else AwaitExitBackground))
      else p)"

definition phase_exit :: "int promise \<Rightarrow> bool \<Rightarrow> phase \<Rightarrow> phase" where
  "phase_exit ex headSent p =
     (case ex of
        Fulfilled _ \<Rightarrow>
          (if p = AwaitExitBackground
           then (if headSent then Threw ERR_HTTP_HEADERS_SENT else Returned)
           else if p = AwaitExitHttp then Returned else p)
      | _ \<Rightarrow> p)"

section \<open>Example inputs\<close>

text \<open>
  A project with the HTTP trigger \<^verbatim>\<open>echo\<close> and the Firestore trigger \<^verbatim>\<open>onWrite\<close>, an
  emulator on port 5001, and externals in which \<^verbatim>\<open>JSON.parse\<close> accepts the two
  documents \<^verbatim>\<open>{}\<close> and \<^verbatim>\<open>null\<close> and the Firestore emulator refuses connections.
\<close>

definition example_parse :: "string \<Rightarrow> json option" where
  "example_parse s =
     (if s = ''{}'' then Some (JObj []) else if s = ''null'' then Some JNull else None)"

definition example_ext :: externals where
  "example_ext =
     \<lparr>JSON_parse = example_parse, getFunctionRegion = (\<lambda>_. ''us-central1''),
      stringify_definition = name, stringify_eventTrigger = (\<lambda>_. ''{}''),
      stringify_string = (\<lambda>s. s), clc_bold = (\<lambda>s. s),
      SERVICE_FIRESTORE = ''firestore.googleapis.com'', firestorePort = Some 8080,
      request_put = (\<lambda>url body. PutError ''ECONNREFUSED'')\<rparr>"

definition example_emulator :: emulator where
  "example_emulator =
     \<lparr>args = \<lparr>arg_port = None, arg_host = None, quiet = False, disabledRuntimeFeatures = None\<rparr>,
      port = 5001, projectId = ''demo-proj'', server = None, functionsDir = ''/srv/functions'',
      nodeBinary = ''/usr/bin/node'', triggers = [], knownTriggerIDs = Map.empty, console = [],
      invocations = [], puts = []\<rparr>"

definition example_log :: "string \<Rightarrow> string \<Rightarrow> string \<Rightarrow> emulator_log" where
  "example_log l t x = \<lparr>el_level = l, el_type = t, el_text = x, el_data = no_data\<rparr>"

definition echo_definition :: emulated_trigger_definition where
  "echo_definition = \<lparr>name = ''echo'', httpsTrigger = True, eventTrigger = None\<rparr>"

definition onWrite_definition :: emulated_trigger_definition where
  "onWrite_definition =
     \<lparr>name = ''onWrite'', httpsTrigger = False,
      eventTrigger = Some \<lparr>service = Some ''firestore.googleapis.com'', resource = ''docs/a''\<rparr>\<rparr>"

definition hello_definition :: emulated_trigger_definition where
  "hello_definition = \<lparr>name = ''hello'', httpsTrigger = True, eventTrigger = None\<rparr>"

definition loaded_emulator :: emulator where
  "loaded_emulator = example_emulator\<lparr>triggers := [echo_definition, onWrite_definition]\<rparr>"

definition parsed_log :: "emulated_trigger_definition list \<Rightarrow> emulator_log" where
  "parsed_log ds =
     \<lparr>el_level = ''SYSTEM'', el_type = ''triggers-parsed'', el_text = [],
      el_data = \<lparr>data_socketPath = None,
                 data_triggers = Some (map (\<lambda>d. (name d, \<lparr>trigger_definition = d\<rparr>)) ds),
                 data_triggerDefinitions = Some ds\<rparr>\<rparr>"

definition ready_log :: emulator_log where
  "ready_log =
     \<lparr>el_level = ''SYSTEM'', el_type = ''runtime-status'', el_text = ''ready'',
      el_data = \<lparr>data_socketPath = Some ''/tmp/w1.sock'', data_triggers = None,
                 data_triggerDefinitions = None\<rparr>\<rparr>"

definition example_request :: "string \<Rightarrow> string \<Rightarrow> request" where
  "example_request n b =
     \<lparr>req_method = ''POST'', req_url = ''/demo-proj/us-central1/'' @ n, req_headers = [],
      trigger_name = n, rawBody = b\<rparr>"

definition example_fromJSON :: "string \<Rightarrow> emulator_log" where
  "example_fromJSON line = example_log line ''log'' line"

section \<open>The event waiter: first match, and no failure on exit\<close>

lemma wait_from:
  "foldl (waitForLog_listener level type filt) p logs =
     (case p of Pending \<Rightarrow> (case find (matches level type filt) logs of None \<Rightarrow> Pending | Some el \<Rightarrow> Fulfilled el)
      | _ \<Rightarrow> p)"
  by (induction logs arbitrary: p)
     (auto simp: waitForLog_listener_def matches_def resolve_def split: promise.splits option.splits)

text \<open>
  Claim C6, as the code has it. \<^verbatim>\<open>waitForLog\<close> resolves with the first emitted record
  whose level and type match and whose optional predicate holds. When no such record is
  emitted the promise stays pending, whether or not the worker exits: the waiter listens
  to \<^verbatim>\<open>"log"\<close> events only and never rejects.
\<close>

theorem waitForLog_first_match:
  "waitForLog (emitted evs) level type filt =
     (case find (matches level type filt) (emitted evs) of None \<Rightarrow> Pending | Some el \<Rightarrow> Fulfilled el)"
  by (simp add: waitForLog_def wait_from)

text \<open>
  The claim as stated fails: after a record that does not match and the exit of the
  worker, the waiter is still pending, it has not failed.
\<close>

theorem waitForLog_exit_counterexample:
  "waitForLog
     (emitted [Log (example_log ''DEBUG'' ''log'' ''starting''), Exit 1])
     ''SYSTEM'' ''triggers-parsed'' None = Pending"
  by (simp add: waitForLog_def waitForLog_listener_def example_log_def)

section \<open>The environment of the worker\<close>

text \<open>
  Claim C9, as the code has it. The worker's working directory is \<^verbatim>\<open>bundle.cwd\<close>. Its
  environment is looked up first in the ambient process environment, then in
  \<^verbatim>\<open>opts.env\<close>, and the key \<^verbatim>\<open>node\<close> maps to the node binary when neither has it:
  a key of \<^verbatim>\<open>opts.env\<close> takes the given value only when the ambient environment does
  not define it.
\<close>

theorem spawn_env_and_cwd:
  "spawn_env (InvokeRuntime_spawn rt js penv nb frb opts) k =
     (case penv k of
        Some v \<Rightarrow> Some v
      | None \<Rightarrow>
          (case spread (case opts of None \<Rightarrow> None | Some opt \<Rightarrow> env opt) k of
             Some v \<Rightarrow> Some v
           | None \<Rightarrow> if k = ''node'' then Some nb else None))
   \<and> spawn_cwd (InvokeRuntime_spawn rt js penv nb frb opts) = cwd frb"
  by (simp add: InvokeRuntime_spawn_def map_add_def split: option.splits)

text \<open>
  The claim as stated fails: with \<^verbatim>\<open>PORT=8080\<close> in the ambient environment and
  \<^verbatim>\<open>PORT=9090\<close> in \<^verbatim>\<open>opts.env\<close>, the worker sees \<^verbatim>\<open>8080\<close>.
\<close>

theorem spawn_env_override_counterexample:
  "spawn_env
     (InvokeRuntime_spawn ''functionsEmulatorRuntime'' (\<lambda>_. ''{}'') [''PORT'' \<mapsto> ''8080'']
        ''/usr/bin/node''
        \<lparr>ports_firestore = None, proto = None, cwd = ''/srv/functions'', triggerId = ''echo'',
         bundle_projectId = ''demo-proj'', disabled_features = None\<rparr>
        (Some \<lparr>serializedTriggers = None, env = Some [''PORT'' \<mapsto> ''9090'']\<rparr>))
     ''PORT'' = Some ''8080''"
  by (simp add: InvokeRuntime_spawn_def spread_def)

section \<open>FATAL records\<close>

lemma fatal_followed_Nil: "fatal_followed []"
  by (simp add: fatal_followed_def)

lemma killed_not_fatal: "el_level killed_log \<noteq> ''FATAL''"
  by (simp add: killed_log_def)

lemma fatal_followed_append:
  assumes "fatal_followed xs" and "fatal_followed ys"
  shows "fatal_followed (xs @ ys)"
  unfolding fatal_followed_def
proof (intro allI impI)
  fix i el
  assume h: "i < length (xs @ ys) \<and> (xs @ ys) ! i = Emit el \<and> el_level el = ''FATAL''"
  show "Suc (Suc i) < length (xs @ ys) \<and> (xs @ ys) ! Suc i = Emit killed_log
          \<and> (xs @ ys) ! Suc (Suc i) = Kill None"
  proof (cases "i < length xs")
    case True
    with h have "xs ! i = Emit el" by (simp add: nth_append)
    with assms(1) True h have
      "Suc (Suc i) < length xs \<and> xs ! Suc i = Emit killed_log \<and> xs ! Suc (Suc i) = Kill None"
      unfolding fatal_followed_def by blast
    then show ?thesis by (simp add: nth_append)
  next
    case False
    define j where "j = i - length xs"
    from False h have j: "j < length ys" "ys ! j = Emit el"
      by (auto simp: j_def nth_append)
    with assms(2) h have
      "Suc (Suc j) < length ys \<and> ys ! Suc j = Emit killed_log \<and> ys ! Suc (Suc j) = Kill None"
      unfolding fatal_followed_def by blast
    with False show ?thesis
      by (auto simp: j_def nth_append Suc_diff_le)
  qed
qed

lemma fatal_followed_group:
  "fatal_followed
     (Emit el # (if el_level el = ''FATAL'' then [Emit killed_log, Kill None] else []))"
  using killed_not_fatal
  by (auto simp: fatal_followed_def nth_Cons split: nat.splits)

text \<open>A line whose subscribers return normally, and a line at which one of them throws.\<close>

lemma on_line_normal:
  assumes "thrown (on_line listener fromJSON r line) = None"
  shows "thrown r = None
     \<and> effects (on_line listener fromJSON r line)
         = effects r @ (Emit (fromJSON line)
             # (if el_level (fromJSON line) = ''FATAL'' then [Emit killed_log, Kill None] else []))"
  using assms
  by (cases "thrown r")
     (auto simp: on_line_def emit_def runtime_kill_def Let_def split: option.splits if_splits)

lemma on_line_throws:
  assumes "thrown r = None" and "snd (listener (subscribers r) (fromJSON line)) = Some err"
  shows "on_line listener fromJSON r line
           = r\<lparr>subscribers := fst (listener (subscribers r) (fromJSON line)),
                effects := effects r @ [Emit (fromJSON line)],
                thrown := Some err\<rparr>"
  using assms by (simp add: on_line_def emit_def runtime_kill_def Let_def)

lemma on_line_followed:
  assumes "thrown r = None \<longrightarrow> fatal_followed (effects r)"
  shows "thrown (on_line listener fromJSON r line) = None
           \<longrightarrow> fatal_followed (effects (on_line listener fromJSON r line))"
proof
  assume n: "thrown (on_line listener fromJSON r line) = None"
  from on_line_normal[OF n] assms fatal_followed_group[of "fromJSON line"]
  show "fatal_followed (effects (on_line listener fromJSON r line))"
    by (simp add: fatal_followed_append)
qed

lemma lines_followed:
  "thrown r = None \<longrightarrow> fatal_followed (effects r) \<Longrightarrow>
   thrown (foldl (on_line listener fromJSON) r ls) = None
     \<longrightarrow> fatal_followed (effects (foldl (on_line listener fromJSON) r ls))"
  by (induction ls arbitrary: r) (simp_all add: on_line_followed)

lemma on_data_followed:
  assumes "thrown r = None \<longrightarrow> fatal_followed (effects r)"
  shows "thrown (snd (on_data listener fromJSON val buf r)) = None
           \<longrightarrow> fatal_followed (effects (snd (on_data listener fromJSON val buf r)))"
  using assms lines_followed[OF assms, of listener fromJSON]
  by (simp add: on_data_def Let_def)

lemma pipe_data_followed:
  assumes "thrown (snd s) = None \<longrightarrow> fatal_followed (effects (snd s))"
  shows "thrown (snd (pipe_data listener fromJSON s chunk)) = None
           \<longrightarrow> fatal_followed (effects (snd (pipe_data listener fromJSON s chunk)))"
proof (cases "thrown (snd s)")
  case (Some err)
  then show ?thesis by (simp add: pipe_data_def)
next
  case None
  obtain p buf where c: "chunk = (p, buf)" by (cases chunk)
  show ?thesis
    using None c on_data_followed[OF assms, of listener fromJSON]
    by (cases p) (simp_all add: pipe_data_def Let_def)
qed

lemma chunks_followed:
  "thrown (snd s) = None \<longrightarrow> fatal_followed (effects (snd s)) \<Longrightarrow>
   thrown (snd (foldl (pipe_data listener fromJSON) s chunks)) = None
     \<longrightarrow> fatal_followed (effects (snd (foldl (pipe_data listener fromJSON) s chunks)))"
  by (induction chunks arbitrary: s) (simp_all add: pipe_data_followed)

text \<open>
  While no subscriber throws, the supervisor does what its comment says: on the unified
  stream of both pipes every FATAL record is followed at once by the synthetic
  \<^verbatim>\<open>killed\<close> record and the kill with the default signal.
\<close>

lemma supervise_followed:
  "thrown (snd (supervise listener fromJSON s0 chunks)) = None
     \<Longrightarrow> fatal_followed (effects (snd (supervise listener fromJSON s0 chunks)))"
  using chunks_followed[of "(\<lparr>stderr_value = [], stdout_value = []\<rparr>,
                             \<lparr>subscribers = s0, effects = [], thrown = None\<rparr>)"
                           listener fromJSON chunks]
  by (simp add: supervise_def fatal_followed_Nil)

text \<open>
  Claim C7 against the code. The supervisor's comment gives the reason for killing the
  worker on a FATAL record (\<^verbatim>\<open>if we don't kill the process it'll wait for
  timeoutMs\<close>), and the claim says that the worker is killed and the synthetic
  \<^verbatim>\<open>killed\<close> record emitted. On the following input the code does neither. The
  handler's own subscriber calls \<^verbatim>\<open>res.send\<close> on every FATAL record, and
  \<^verbatim>\<open>res.send\<close> throws once the head of the outbound response is sent. For the HTTP
  trigger \<^verbatim>\<open>echo\<close>, after the worker has streamed the chunk \<^verbatim>\<open>hi\<close> of its
  response, a FATAL line on the worker's stdout is emitted and the throw of the
  subscriber leaves the \<^verbatim>\<open>data\<close> handler: no synthetic \<^verbatim>\<open>killed\<close> record is
  emitted, the worker is not killed, and the line stays in the buffer.
\<close>

theorem fatal_after_head_sent_not_killed:
  "headersSent (res (handler example_ext example_emulator (example_request ''echo'' ''{}'')
      [Log (parsed_log [echo_definition, onWrite_definition]), Log ready_log,
       RuntimeResponse (Some 200) [], ResData ''hi'']))
   \<and> el_level (example_fromJSON ''FATAL'') = ''FATAL''
   \<and> effects (snd (supervise handler_listener example_fromJSON
        (handler example_ext example_emulator (example_request ''echo'' ''{}'')
           [Log (parsed_log [echo_definition, onWrite_definition]), Log ready_log,
            RuntimeResponse (Some 200) [], ResData ''hi''])
        [(Stdout, ''FATAL'' @ [CHR 0x0A])]))
      = [Emit (example_fromJSON ''FATAL'')]
   \<and> thrown (snd (supervise handler_listener example_fromJSON
        (handler example_ext example_emulator (example_request ''echo'' ''{}'')
           [Log (parsed_log [echo_definition, onWrite_definition]), Log ready_log,
            RuntimeResponse (Some 200) [], ResData ''hi''])
        [(Stdout, ''FATAL'' @ [CHR 0x0A])]))
      = Some ERR_HTTP_HEADERS_SENT
   \<and> stdout_value (fst (supervise handler_listener example_fromJSON
        (handler example_ext example_emulator (example_request ''echo'' ''{}'')
           [Log (parsed_log [echo_definition, onWrite_definition]), Log ready_log,
            RuntimeResponse (Some 200) [], ResData ''hi''])
        [(Stdout, ''FATAL'' @ [CHR 0x0A])]))
      = ''FATAL'' @ [CHR 0x0A]"
  by code_simp

text \<open>
  The same line with subscribers that return normally: the record, the synthetic
  record and the kill, in this order, on either pipe.
\<close>

lemma fatal_with_quiet_subscribers:
  "effects (snd (supervise quiet_listener example_fromJSON () [(Stdout, ''FATAL'' @ [CHR 0x0A])]))
     = [Emit (example_fromJSON ''FATAL''),
        Emit \<lparr>el_level = ''SYSTEM'', el_type = ''runtime-status'', el_text = ''killed'',
              el_data = no_data\<rparr>,
        Kill None]
   \<and> effects (snd (supervise quiet_listener example_fromJSON () [(Stderr, ''FATAL'' @ [CHR 0x0A])]))
     = [Emit (example_fromJSON ''FATAL''),
        Emit \<lparr>el_level = ''SYSTEM'', el_type = ''runtime-status'', el_text = ''killed'',
              el_data = no_data\<rparr>,
        Kill None]"
  by code_simp

section \<open>Stopping the emulator\<close>

text \<open>
  Claim C10. \<^verbatim>\<open>stop\<close> is fulfilled on return. It changes nothing but the server: a
  listening server has been asked to close and is not closed yet, and without a server
  (\<^verbatim>\<open>start\<close> never ran) the emulator, with its trigger table and known-trigger set, is
  unchanged.
\<close>

theorem stop_resolves_without_waiting:
  "fst (stop e) = Fulfilled ()
   \<and> snd (stop e) = e\<lparr>server := map_option server_close (server e)\<rparr>
   \<and> triggers (snd (stop e)) = triggers e
   \<and> knownTriggerIDs (snd (stop e)) = knownTriggerIDs e
   \<and> (server e = Some Listening \<longrightarrow> server (snd (stop e)) = Some Closing)
   \<and> (server e = None \<longrightarrow> snd (stop e) = e)"
  by (cases "server e") (auto simp: stop_def server_close_def)

theorem stop_resolves_without_waiting_witness:
  "server (example_emulator\<lparr>server := Some Listening\<rparr>) = Some Listening
   \<and> fst (stop (example_emulator\<lparr>server := Some Listening\<rparr>)) = Fulfilled ()
   \<and> server (snd (stop (example_emulator\<lparr>server := Some Listening\<rparr>))) = Some Closing
   \<and> server example_emulator = None
   \<and> snd (stop example_emulator) = example_emulator"
proof -
  have a: "server (example_emulator\<lparr>server := Some Listening\<rparr>) = Some Listening"
    by simp
  have b: "server example_emulator = None"
    by (simp add: example_emulator_def)
  from stop_resolves_without_waiting[of "example_emulator\<lparr>server := Some Listening\<rparr>"]
       stop_resolves_without_waiting[of example_emulator] a b
  show ?thesis by blast
qed

section \<open>A failed registration with the Firestore emulator\<close>

lemma setupTriggers_append:
  "setupTriggers ext (pre @ rest) e =
     (case setupTriggers ext pre e of
        (Fulfilled u, e1) \<Rightarrow> setupTriggers ext rest e1
      | (Rejected r, e1) \<Rightarrow> (Rejected r, e1)
      | (Pending, e1) \<Rightarrow> (Pending, e1))"
proof (induction pre arbitrary: e)
  case Nil
  then show ?case by simp
next
  case (Cons a pre)
  show ?case
    by (simp add: Cons.IH Let_def split: prod.splits promise.splits)
qed

lemma addFirestoreTrigger_transport_error:
  assumes "firestorePort ext = Some fp" and "fp \<noteq> 0"
    and "request_put ext
           (''http://localhost:'' @ show_nat fp @ ''/emulator/v1/projects/'' @ pid
              @ ''/triggers/'' @ name d)
           (stringify_eventTrigger ext (eventTrigger d)) = PutError err"
  shows "addFirestoreTrigger ext pid d e =
     (Rejected RejectedWithoutReason,
      log WARN (''Error adding trigger: '' @ err)
        ((print (LoggerDebug [''addFirestoreTrigger'',
                              stringify_string ext (stringify_eventTrigger ext (eventTrigger d))])
            (logLabeled BULLET ''functions''
               (''Setting up Cloud Firestore trigger \"'' @ name d @ ''\"'') e))
         \<lparr>puts := puts e @
            [(''http://localhost:'' @ show_nat fp @ ''/emulator/v1/projects/'' @ pid
                @ ''/triggers/'' @ name d,
              stringify_eventTrigger ext (eventTrigger d))]\<rparr>))"
  using assms
  by (simp add: addFirestoreTrigger_def Let_def print_def logLabeled_def)

lemma log_fields [simp]:
  "knownTriggerIDs (log t x e) = knownTriggerIDs e"
  "triggers (log t x e) = triggers e"
  "projectId (log t x e) = projectId e"
  "puts (log t x e) = puts e"
  "args (log t x e) = args e"
  by (auto simp: log_def print_def split: LogType.splits)

lemma logLabeled_fields [simp]:
  "knownTriggerIDs (logLabeled t l x e) = knownTriggerIDs e"
  "triggers (logLabeled t l x e) = triggers e"
  "projectId (logLabeled t l x e) = projectId e"
  "puts (logLabeled t l x e) = puts e"
  "args (logLabeled t l x e) = args e"
  by (auto simp: logLabeled_def print_def split: LogType.splits)

lemma print_fields [simp]:
  "knownTriggerIDs (print out e) = knownTriggerIDs e"
  "triggers (print out e) = triggers e"
  "projectId (print out e) = projectId e"
  "puts (print out e) = puts e"
  "args (print out e) = args e"
  by (auto simp: print_def)

lemma addFirestoreTrigger_fields:
  "knownTriggerIDs (snd (addFirestoreTrigger ext pid d e)) = knownTriggerIDs e"
  "triggers (snd (addFirestoreTrigger ext pid d e)) = triggers e"
  "projectId (snd (addFirestoreTrigger ext pid d e)) = projectId e"
  "args (snd (addFirestoreTrigger ext pid d e)) = args e"
  by (simp_all add: addFirestoreTrigger_def Let_def split: option.splits put_result.splits)

text \<open>One turn of the loop that is followed by the next one.\<close>

lemma setupTriggers_step:
  assumes "setupTriggers ext (d # ds) e = (Fulfilled u, e1)"
  shows "\<exists>X. knownTriggerIDs X = knownTriggerIDs e \<and> triggers X = triggers e
           \<and> projectId X = projectId e \<and> args X = args e
           \<and> setupTriggers ext ds (X\<lparr>knownTriggerIDs := (knownTriggerIDs X)(name d \<mapsto> True)\<rparr>)
                = (Fulfilled u, e1)"
proof (cases "httpsTrigger d")
  case True
  let ?X = "logLabeled BULLET ''functions''
              (''HTTP trigger initialized at ''
                 @ clc_bold ext (getHttpFunctionUrl (port e) (projectId e) (name d)
                                   (getFunctionRegion ext d))) e"
  from assms True
  have "setupTriggers ext ds (?X\<lparr>knownTriggerIDs := (knownTriggerIDs ?X)(name d \<mapsto> True)\<rparr>)
          = (Fulfilled u, e1)"
    by (simp add: Let_def)
  moreover have "knownTriggerIDs ?X = knownTriggerIDs e \<and> triggers ?X = triggers e
           \<and> projectId ?X = projectId e \<and> args ?X = args e" by simp
  ultimately show ?thesis by blast
next
  case False
  show ?thesis
  proof (cases "get_service d = SERVICE_FIRESTORE ext")
    case fs: True
    let ?X = "snd (addFirestoreTrigger ext (projectId e) d e)"
    from assms False fs
    have "setupTriggers ext ds (?X\<lparr>knownTriggerIDs := (knownTriggerIDs ?X)(name d \<mapsto> True)\<rparr>)
            = (Fulfilled u, e1)"
      by (cases "addFirestoreTrigger ext (projectId e) d e")
         (auto simp: Let_def split: promise.splits)
    moreover have "knownTriggerIDs ?X = knownTriggerIDs e \<and> triggers ?X = triggers e
           \<and> projectId ?X = projectId e \<and> args ?X = args e"
      by (simp add: addFirestoreTrigger_fields)
    ultimately show ?thesis by blast
  next
    case other: False
    let ?X = "log WARN (''Ignoring trigger \"'' @ name d @ ''\" because the service \"''
                          @ get_service d @ ''\" is not yet supported.'')
                (log DEBUG (''Unsupported trigger: '' @ stringify_definition ext d) e)"
    from assms False other
    have "setupTriggers ext ds (?X\<lparr>knownTriggerIDs := (knownTriggerIDs ?X)(name d \<mapsto> True)\<rparr>)
            = (Fulfilled u, e1)"
      by (simp add: Let_def)
    moreover have "knownTriggerIDs ?X = knownTriggerIDs e \<and> triggers ?X = triggers e
           \<and> projectId ?X = projectId e \<and> args ?X = args e" by simp
    ultimately show ?thesis by blast
  qed
qed

lemma setupTriggers_fulfilled:
  "setupTriggers ext pre e = (Fulfilled u, e1) \<Longrightarrow>
   knownTriggerIDs e1
     = (\<lambda>n. if n \<in> name ` set pre then Some True else knownTriggerIDs e n)
   \<and> triggers e1 = triggers e \<and> projectId e1 = projectId e \<and> args e1 = args e"
proof (induction pre arbitrary: e)
  case Nil
  then show ?case by simp
next
  case (Cons d ds)
  from setupTriggers_step[OF Cons.prems] obtain X where
    X: "knownTriggerIDs X = knownTriggerIDs e" "triggers X = triggers e"
       "projectId X = projectId e" "args X = args e"
    and r: "setupTriggers ext ds (X\<lparr>knownTriggerIDs := (knownTriggerIDs X)(name d \<mapsto> True)\<rparr>)
              = (Fulfilled u, e1)"
    by blast
  from Cons.IH[OF r] X show ?case by (auto simp: fun_eq_iff)
qed

lemma known_after:
  "knownTriggerIDs e1 = (\<lambda>n. if n \<in> N then Some True else knownTriggerIDs e n)
     \<Longrightarrow> known e1 n = (known e n \<or> n \<in> N)"
  by (simp add: known_def)

text \<open>
  Claim C8, as the code has it. When the PUT that registers a Firestore trigger fails
  with a transport error, the failure is printed through \<^verbatim>\<open>log("WARN", ...)\<close> (a
  warning, or a debug line when the emulator is quiet) and the promise of
  \<^verbatim>\<open>addFirestoreTrigger\<close> is rejected; \<^verbatim>\<open>loadTriggers\<close> awaits it inside its loop
  without a handler, so the reload is rejected at that trigger. The trigger table is
  the one of this reload. A name is in the known-trigger set afterwards exactly if it
  was before or is the name of a trigger set up before the failing one: the failing
  trigger and the triggers after it in the same reload are not processed, and their
  names are not added.
\<close>

theorem transport_error_aborts_reload:
  assumes "waitForLog (emitted evs) ''SYSTEM'' ''triggers-parsed'' None = Fulfilled ev"
    and "data_triggerDefinitions (el_data ev) = Some defs"
    and "filter (\<lambda>x. \<not> known e (name x)) defs = pre @ d # post"
    and "setupTriggers ext pre
           (e\<lparr>invocations := invocations e @ [diagnosticBundle e], triggers := defs\<rparr>)
         = (Fulfilled (), e1)"
    and "\<not> httpsTrigger d" and "get_service d = SERVICE_FIRESTORE ext"
    and "firestorePort ext = Some fp" and "fp \<noteq> 0"
    and "request_put ext
           (''http://localhost:'' @ show_nat fp @ ''/emulator/v1/projects/'' @ projectId e
              @ ''/triggers/'' @ name d)
           (stringify_eventTrigger ext (eventTrigger d)) = PutError err"
  shows "fst (loadTriggers ext evs e) = Rejected RejectedWithoutReason
   \<and> triggers (snd (loadTriggers ext evs e)) = defs
   \<and> (\<forall>n. known (snd (loadTriggers ext evs e)) n = (known e n \<or> n \<in> name ` set pre))
   \<and> (\<forall>x \<in> set (d # post).
         known (snd (loadTriggers ext evs e)) (name x) = (name x \<in> name ` set pre))
   \<and> puts (snd (loadTriggers ext evs e))
        = puts e1 @ [(''http://localhost:'' @ show_nat fp @ ''/emulator/v1/projects/''
                        @ projectId e @ ''/triggers/'' @ name d,
                      stringify_eventTrigger ext (eventTrigger d))]
   \<and> last (console (snd (loadTriggers ext evs e)))
        = (if quiet (args e) then LoggerDebug [''Error adding trigger: '' @ err]
           else LogWarning (''Error adding trigger: '' @ err))"
proof -
  let ?e0 = "e\<lparr>invocations := invocations e @ [diagnosticBundle e]\<rparr>"
  let ?E0 = "e\<lparr>invocations := invocations e @ [diagnosticBundle e], triggers := defs\<rparr>"
  let ?url = "''http://localhost:'' @ show_nat fp @ ''/emulator/v1/projects/'' @ projectId e
                @ ''/triggers/'' @ name d"
  let ?e2 = "log WARN (''Error adding trigger: '' @ err)
        ((print (LoggerDebug [''addFirestoreTrigger'',
                              stringify_string ext (stringify_eventTrigger ext (eventTrigger d))])
            (logLabeled BULLET ''functions''
               (''Setting up Cloud Firestore trigger \"'' @ name d @ ''\"'') e1))
         \<lparr>puts := puts e1 @ [(?url, stringify_eventTrigger ext (eventTrigger d))]\<rparr>)"
  have k: "known ?e0 = known e" by (simp add: known_def fun_eq_iff)
  have l: "loadTriggers ext evs e = setupTriggers ext (pre @ d # post) ?E0"
    using assms(1,2,3) by (simp add: loadTriggers_def Let_def k)
  from setupTriggers_fulfilled[OF assms(4)]
  have f: "knownTriggerIDs e1
             = (\<lambda>n. if n \<in> name ` set pre then Some True else knownTriggerIDs ?E0 n)"
    and t: "triggers e1 = defs" and p: "projectId e1 = projectId e" and a: "args e1 = args e"
    by simp_all
  have s: "setupTriggers ext (d # post) e1 =
     (case addFirestoreTrigger ext (projectId e1) d e1 of
        (Fulfilled u, e2) \<Rightarrow>
          setupTriggers ext post (e2\<lparr>knownTriggerIDs := (knownTriggerIDs e2)(name d \<mapsto> True)\<rparr>)
      | (Rejected r, e2) \<Rightarrow> (Rejected r, e2)
      | (Pending, e2) \<Rightarrow> (Pending, e2))"
    using assms(5,6) by (simp add: Let_def)
  from l have l1: "loadTriggers ext evs e = setupTriggers ext (d # post) e1"
    using assms(4) by (simp add: setupTriggers_append)
  have a9: "request_put ext
           (''http://localhost:'' @ show_nat fp @ ''/emulator/v1/projects/'' @ projectId e1
              @ ''/triggers/'' @ name d)
           (stringify_eventTrigger ext (eventTrigger d)) = PutError err"
    using assms(9) p by simp
  have r: "loadTriggers ext evs e = (Rejected RejectedWithoutReason, ?e2)"
    unfolding l1 s addFirestoreTrigger_transport_error[OF assms(7,8) a9, of e1]
    by (simp add: p)
  have kn: "known ?e2 n = (known e n \<or> n \<in> name ` set pre)" for n
  proof -
    have "knownTriggerIDs ?e2 = knownTriggerIDs e1" by simp
    then have "known ?e2 n = known e1 n" by (simp add: known_def)
    also have "\<dots> = (known ?E0 n \<or> n \<in> name ` set pre)" by (rule known_after[OF f])
    also have "known ?E0 n = known e n" by (simp add: known_def)
    finally show ?thesis .
  qed
  have nk: "known ?e2 (name x) = (name x \<in> name ` set pre)" if "x \<in> set (d # post)" for x
  proof -
    from that have "x \<in> set (filter (\<lambda>x. \<not> known e (name x)) defs)"
      by (simp only: assms(3)) auto
    then have "\<not> known e (name x)" by simp
    with kn[of "name x"] show ?thesis by simp
  qed
  have c: "last (console ?e2)
        = (if quiet (args e) then LoggerDebug [''Error adding trigger: '' @ err]
           else LogWarning (''Error adding trigger: '' @ err))"
    using a by (simp add: log_def print_def)
  have pu: "puts ?e2 = puts e1 @ [(?url, stringify_eventTrigger ext (eventTrigger d))]"
    by simp
  have tr: "triggers ?e2 = defs" using t by simp
  from r kn nk c pu tr show ?thesis by simp
qed

theorem transport_error_aborts_reload_witness:
  "waitForLog
     (emitted [Log (parsed_log [echo_definition, onWrite_definition, hello_definition]), Exit 0])
     ''SYSTEM'' ''triggers-parsed'' None
     = Fulfilled (parsed_log [echo_definition, onWrite_definition, hello_definition])
   \<and> data_triggerDefinitions
        (el_data (parsed_log [echo_definition, onWrite_definition, hello_definition]))
       = Some [echo_definition, onWrite_definition, hello_definition]
   \<and> filter (\<lambda>x. \<not> known example_emulator (name x))
        [echo_definition, onWrite_definition, hello_definition]
       = [echo_definition] @ onWrite_definition # [hello_definition]
   \<and> fst (setupTriggers example_ext [echo_definition]
        (example_emulator\<lparr>invocations := invocations example_emulator
                                          @ [diagnosticBundle example_emulator],
                          triggers := [echo_definition, onWrite_definition, hello_definition]\<rparr>))
       = Fulfilled ()
   \<and> \<not> httpsTrigger onWrite_definition
   \<and> get_service onWrite_definition = SERVICE_FIRESTORE example_ext
   \<and> firestorePort example_ext = Some 8080 \<and> (8080::nat) \<noteq> 0
   \<and> fst (loadTriggers example_ext
        [Log (parsed_log [echo_definition, onWrite_definition, hello_definition]), Exit 0]
        example_emulator) = Rejected RejectedWithoutReason
   \<and> triggers (snd (loadTriggers example_ext
        [Log (parsed_log [echo_definition, onWrite_definition, hello_definition]), Exit 0]
        example_emulator)) = [echo_definition, onWrite_definition, hello_definition]
   \<and> known (snd (loadTriggers example_ext
        [Log (parsed_log [echo_definition, onWrite_definition, hello_definition]), Exit 0]
        example_emulator)) ''echo''
   \<and> \<not> known (snd (loadTriggers example_ext
        [Log (parsed_log [echo_definition, onWrite_definition, hello_definition]), Exit 0]
        example_emulator)) ''onWrite''
   \<and> \<not> known (snd (loadTriggers example_ext
        [Log (parsed_log [echo_definition, onWrite_definition, hello_definition]), Exit 0]
        example_emulator)) ''hello''
   \<and> last (console (snd (loadTriggers example_ext
        [Log (parsed_log [echo_definition, onWrite_definition, hello_definition]), Exit 0]
        example_emulator))) = LogWarning ''Error adding trigger: ECONNREFUSED''"
proof -
  let ?defs = "[echo_definition, onWrite_definition, hello_definition]"
  let ?evs = "[Log (parsed_log ?defs), Exit 0]"
  let ?E0 = "example_emulator\<lparr>invocations := invocations example_emulator
                                          @ [diagnosticBundle example_emulator],
                          triggers := ?defs\<rparr>"
  let ?e1 = "snd (setupTriggers example_ext [echo_definition] ?E0)"
  have h1: "waitForLog (emitted ?evs) ''SYSTEM'' ''triggers-parsed'' None = Fulfilled (parsed_log ?defs)"
    by (simp add: waitForLog_def waitForLog_listener_def resolve_def parsed_log_def)
  have h2: "data_triggerDefinitions (el_data (parsed_log ?defs)) = Some ?defs"
    by (simp add: parsed_log_def)
  have n1: "name echo_definition = ''echo''" "name onWrite_definition = ''onWrite''"
    "name hello_definition = ''hello''"
    by (simp_all add: echo_definition_def onWrite_definition_def hello_definition_def)
  have h3: "filter (\<lambda>x. \<not> known example_emulator (name x)) ?defs
              = [echo_definition] @ onWrite_definition # [hello_definition]"
    by (simp add: known_def example_emulator_def n1 Object_prototype_names_def)
  have f: "fst (setupTriggers example_ext [echo_definition] ?E0) = Fulfilled ()"
    by (simp add: echo_definition_def Let_def)
  then have h4: "setupTriggers example_ext [echo_definition] ?E0 = (Fulfilled (), ?e1)"
    by (metis prod.collapse)
  have h5: "\<not> httpsTrigger onWrite_definition"
    by (simp add: onWrite_definition_def)
  have h6: "get_service onWrite_definition = SERVICE_FIRESTORE example_ext"
    by (simp add: onWrite_definition_def get_service_def example_ext_def)
  have h7: "firestorePort example_ext = Some 8080" by (simp add: example_ext_def)
  have h8: "(8080::nat) \<noteq> 0" by simp
  have h9: "request_put example_ext
           (''http://localhost:'' @ show_nat 8080 @ ''/emulator/v1/projects/''
              @ projectId example_emulator @ ''/triggers/'' @ name onWrite_definition)
           (stringify_eventTrigger example_ext (eventTrigger onWrite_definition))
           = PutError ''ECONNREFUSED''"
    by (simp add: example_ext_def)
  have q: "\<not> quiet (args example_emulator)" by (simp add: example_emulator_def)
  note T = transport_error_aborts_reload[OF h1 h2 h3 h4 h5 h6 h7 h8 h9]
  from T have t1: "fst (loadTriggers example_ext ?evs example_emulator)
                     = Rejected RejectedWithoutReason"
    and t2: "triggers (snd (loadTriggers example_ext ?evs example_emulator)) = ?defs"
    and t3: "known (snd (loadTriggers example_ext ?evs example_emulator)) ''echo''
               = (known example_emulator ''echo'' \<or> ''echo'' \<in> name ` set [echo_definition])"
    and t4: "\<forall>x \<in> set (onWrite_definition # [hello_definition]).
               known (snd (loadTriggers example_ext ?evs example_emulator)) (name x)
                 = (name x \<in> name ` set [echo_definition])"
    and t5: "last (console (snd (loadTriggers example_ext ?evs example_emulator)))
               = (if quiet (args example_emulator)
                  then LoggerDebug [''Error adding trigger: '' @ ''ECONNREFUSED'']
                  else LogWarning (''Error adding trigger: '' @ ''ECONNREFUSED''))"
    by blast+
  from t3 n1 have k1: "known (snd (loadTriggers example_ext ?evs example_emulator)) ''echo''"
    by simp
  from t4 n1 have k2: "\<not> known (snd (loadTriggers example_ext ?evs example_emulator)) ''onWrite''"
    and k3: "\<not> known (snd (loadTriggers example_ext ?evs example_emulator)) ''hello''"
    by simp_all
  from t5 q have c: "last (console (snd (loadTriggers example_ext ?evs example_emulator)))
                       = LogWarning ''Error adding trigger: ECONNREFUSED''"
    by simp
  from h1 h2 h3 f h5 h6 h7 h8 t1 t2 k1 k2 k3 c show ?thesis by blast
qed

text \<open>
  The claim as stated fails: a reload discovers the Firestore trigger \<^verbatim>\<open>onWrite\<close> and
  then the HTTP trigger \<^verbatim>\<open>echo\<close>; the PUT for \<^verbatim>\<open>onWrite\<close> is refused, the reload is
  rejected, and \<^verbatim>\<open>echo\<close> is not added to the known-trigger set.
\<close>

theorem reload_not_aborted_counterexample:
  "fst (loadTriggers example_ext
          [Log (parsed_log [onWrite_definition, echo_definition]), Exit 0] example_emulator)
     = Rejected RejectedWithoutReason
   \<and> \<not> known (snd (loadTriggers example_ext
          [Log (parsed_log [onWrite_definition, echo_definition]), Exit 0] example_emulator))
        ''echo''
   \<and> triggers (snd (loadTriggers example_ext
          [Log (parsed_log [onWrite_definition, echo_definition]), Exit 0] example_emulator))
        = [onWrite_definition, echo_definition]"
  by (simp add: loadTriggers_def waitForLog_def waitForLog_listener_def resolve_def parsed_log_def
        known_def example_emulator_def onWrite_definition_def echo_definition_def Let_def
        get_service_def example_ext_def addFirestoreTrigger_def logLabeled_def print_def log_def
        Object_prototype_names_def)

section \<open>The outbound response is well formed\<close>

lemma heads_append [simp]: "heads (xs @ ys) = heads xs + heads ys"
  by (induction xs rule: heads.induct) auto

lemma ends_append [simp]: "ends (xs @ ys) = ends xs + ends ys"
  by (induction xs rule: ends.induct) auto

lemma res_ok_cors: "res_ok cors_response"
  by (simp add: res_ok_def cors_response_def)

lemma cors_fields [simp]:
  "\<not> headersSent cors_response" "\<not> finished cors_response" "wire cors_response = []"
  "statusCode cors_response = 200"
  by (simp_all add: cors_response_def)

lemma setHeaders_unsent:
  "\<not> headersSent r \<Longrightarrow> setHeaders kvs r = Inr (r\<lparr>headers := forwarded kvs (headers r)\<rparr>)"
  by (induction kvs arbitrary: r) (auto simp: setHeader_def)

lemma forwardStatusAndHeaders_eq:
  "forwardStatusAndHeaders (sc, hs) r =
     Inr (if headersSent r then r\<lparr>statusCode := status_or_200 sc\<rparr>
          else r\<lparr>statusCode := status_or_200 sc, headers := forwarded hs (headers r)\<rparr>)"
  by (simp add: forwardStatusAndHeaders_def res_status_def status_or_200_def Let_def
                setHeaders_unsent)

lemma res_end_finished [simp]: "finished (res_end b r)"
  by (simp add: res_end_def Let_def)

lemma grows_refl: "res_ok r \<Longrightarrow> grows r r"
proof -
  assume a: "res_ok r"
  have "wire r = wire r @ []" by simp
  then have "\<exists>w. wire r = wire r @ w" ..
  with a show ?thesis unfolding grows_def by blast
qed

lemma grows_finished: "res_ok r \<Longrightarrow> grows r r' \<Longrightarrow> finished r \<Longrightarrow> finished r'"
proof -
  assume ok: "res_ok r" and g: "grows r r'" and f: "finished r"
  from g f have w: "wire r' = wire r" by (simp add: grows_def)
  from ok f have "ends (wire r) = 1" by (simp add: res_ok_def)
  moreover from g have "ends (wire r') = (if finished r' then 1 else 0)"
    by (simp add: grows_def res_ok_def)
  ultimately show "finished r'" using w by (simp split: if_splits)
qed

lemma grows_trans:
  assumes "res_ok r" and "grows r r'" and "grows r' r''"
  shows "grows r r''"
proof -
  from assms(2,3) have a: "res_ok r''" "\<exists>w. wire r'' = wire r @ w" by (auto simp: grows_def)
  have "finished r \<longrightarrow> wire r'' = wire r"
  proof
    assume f: "finished r"
    with grows_finished[OF assms(1,2)] have "finished r'" by simp
    with assms(2,3) f show "wire r'' = wire r" by (simp add: grows_def)
  qed
  with a show ?thesis by (simp add: grows_def)
qed

lemma grows_send_with:
  "res_ok r \<Longrightarrow> send_with ct body r = Inr r' \<Longrightarrow> grows r r'"
  by (auto simp: send_with_def grows_def res_ok_def res_end_def flushHeaders_def Let_def
           split: if_splits)

lemma grows_forward_end:
  "res_ok r \<Longrightarrow>
   grows r (res_end None (if headersSent r then r\<lparr>statusCode := c\<rparr>
                          else r\<lparr>statusCode := c, headers := h\<rparr>))"
  by (auto simp: grows_def res_ok_def res_end_def flushHeaders_def Let_def)

lemma grows_forward_only:
  "res_ok r \<Longrightarrow> finished r \<Longrightarrow>
   grows r (if headersSent r then r\<lparr>statusCode := c\<rparr> else r\<lparr>statusCode := c, headers := h\<rparr>)"
  by (auto simp: grows_def res_ok_def)

lemma grows_forward_write:
  "res_ok r \<Longrightarrow>
   res_write buf (if headersSent r then r\<lparr>statusCode := c\<rparr>
                  else r\<lparr>statusCode := c, headers := h\<rparr>) = Inr r2 \<Longrightarrow> grows r r2"
  by (auto simp: grows_def res_ok_def res_write_def flushHeaders_def Let_def split: if_splits)

lemma res_write_Inl: "res_write buf r = Inl err \<Longrightarrow> finished r"
  by (simp add: res_write_def split: if_splits)

lemma grows_end: "res_ok r \<Longrightarrow> grows r (res_end None r)"
  by (auto simp: grows_def res_ok_def res_end_def flushHeaders_def Let_def)

lemma step_ready_res [simp]: "res (step_ready st) = res st"
  by (simp add: step_ready_def split: promise.splits)

lemma step_lookup_res [simp]: "res (step_lookup req st) = res st"
  by (simp add: step_lookup_def Let_def split: promise.splits option.splits)

lemma step_exit_grows: "res_ok (res st) \<Longrightarrow> grows (res st) (res (step_exit st))"
  by (auto simp: step_exit_def res_json_def grows_refl split: promise.splits sum.splits
           intro: grows_send_with)

lemma advance_grows: "res_ok (res st) \<Longrightarrow> grows (res st) (res (advance req st))"
  using step_exit_grows[of "step_lookup req (step_ready st)"]
  by (simp add: advance_def)

lemma on_log_grows: "res_ok (res st) \<Longrightarrow> grows (res st) (res (on_log st el))"
  by (auto simp: on_log_def res_send_def grows_refl Let_def split: sum.splits
           intro: grows_send_with)

lemma on_res_data_grows: "res_ok (res st) \<Longrightarrow> grows (res st) (res (on_res_data st buf))"
proof (cases "runtimeRes st")
  case None
  then show "res_ok (res st) \<Longrightarrow> ?thesis" by (simp add: on_res_data_def grows_refl)
next
  case (Some rr)
  assume ok: "res_ok (res st)"
  obtain sc hs where rr: "rr = (sc, hs)" by (cases rr)
  let ?r1 = "if headersSent (res st) then (res st)\<lparr>statusCode := status_or_200 sc\<rparr>
             else (res st)\<lparr>statusCode := status_or_200 sc,
                           headers := forwarded hs (headers (res st))\<rparr>"
  show ?thesis
  proof (cases "res_write buf ?r1")
    case (Inl err)
    then have "finished ?r1" by (rule res_write_Inl)
    then have "finished (res st)" by (simp split: if_splits)
    from grows_forward_only[OF ok this] Some rr Inl show ?thesis
      by (simp add: on_res_data_def forwardStatusAndHeaders_eq)
  next
    case (Inr r2)
    from grows_forward_write[OF ok Inr] Some rr Inr show ?thesis
      by (simp add: on_res_data_def forwardStatusAndHeaders_eq)
  qed
qed

lemma on_res_end_grows: "res_ok (res st) \<Longrightarrow> grows (res st) (res (on_res_end st))"
proof (cases "runtimeRes st")
  case None
  then show "res_ok (res st) \<Longrightarrow> ?thesis" by (simp add: on_res_end_def grows_refl)
next
  case (Some rr)
  assume ok: "res_ok (res st)"
  obtain sc hs where rr: "rr = (sc, hs)" by (cases rr)
  from grows_forward_end[OF ok] Some rr show ?thesis
    by (simp add: on_res_end_def forwardStatusAndHeaders_eq)
qed

lemma on_error_grows: "res_ok (res st) \<Longrightarrow> grows (res st) (res (on_error st))"
  by (cases "runtimeReq st") (simp_all add: on_error_def grows_end grows_refl)

lemma grows_res_ok: "grows r r' \<Longrightarrow> res_ok r'"
  by (simp add: grows_def)

lemma advance_after:
  assumes "res_ok (res st)" and "grows (res st) (res X)"
  shows "grows (res st) (res (advance req X))"
  using grows_trans[OF assms(1,2) advance_grows[OF grows_res_ok[OF assms(2)]]] .

lemma handler_event_grows:
  assumes "res_ok (res st)"
  shows "grows (res st) (res (handler_event req st ev))"
proof (cases "spawned st = []")
  case True
  with assms show ?thesis by (simp add: handler_event_def grows_refl)
next
  case False
  note g = advance_after[OF assms]
  show ?thesis
  proof (cases ev)
    case (Log el)
    with False g[OF on_log_grows[OF assms, of el]] show ?thesis by (simp add: handler_event_def)
  next
    case (Exit c)
    have "grows (res st) (res (st\<lparr>exit := resolve c (exit st)\<rparr>))"
      using assms by (simp add: grows_refl)
    from g[OF this] Exit False show ?thesis by (simp add: handler_event_def)
  next
    case (RuntimeResponse sc hs)
    have a: "grows (res st) (res (st\<lparr>runtimeRes := Some (sc, hs)\<rparr>))"
      using assms by (simp add: grows_refl)
    have b: "grows (res st) (res st)" using assms by (simp add: grows_refl)
    from g[OF a] g[OF b] RuntimeResponse False show ?thesis by (simp add: handler_event_def)
  next
    case (ResData buf)
    with False g[OF on_res_data_grows[OF assms, of buf]] show ?thesis by (simp add: handler_event_def)
  next
    case ResClose
    with False g[OF on_res_end_grows[OF assms]] show ?thesis by (simp add: handler_event_def)
  next
    case ResEnd
    with False g[OF on_res_end_grows[OF assms]] show ?thesis by (simp add: handler_event_def)
  next
    case ReqError
    with False g[OF on_error_grows[OF assms]] show ?thesis by (simp add: handler_event_def)
  next
    case PipeError
    with False g[OF on_error_grows[OF assms]] show ?thesis by (simp add: handler_event_def)
  qed
qed

lemma foldl_grows:
  "res_ok (res st) \<Longrightarrow> grows (res st) (res (foldl (handler_event req) st evs))"
proof (induction evs arbitrary: st)
  case Nil
  then show ?case by (simp add: grows_refl)
next
  case (Cons ev evs)
  from handler_event_grows[OF Cons.prems, of req ev]
  have g: "grows (res st) (res (handler_event req st ev))" .
  from grows_trans[OF Cons.prems g Cons.IH[OF grows_res_ok[OF g]]] show ?case by simp
qed

lemma handler_start_res [simp]: "res (handler_start ext e req) = cors_response"
  by (simp add: handler_start_def handler_init_def Let_def split: option.splits)

lemma handler_res_ok: "res_ok (res (handler ext e req evs))"
  using foldl_grows[of "handler_start ext e req" req evs] res_ok_cors
  by (simp add: handler_def grows_def)

lemma handler_append:
  "handler ext e req (pre @ ev # post)
     = foldl (handler_event req) (handler_event req (handler ext e req pre) ev) post"
  by (simp add: handler_def)

text \<open>The runtime is started once, before the first event.\<close>

lemma step_ready_spawned [simp]: "spawned (step_ready st) = spawned st"
  by (simp add: step_ready_def split: promise.splits)

lemma step_lookup_spawned [simp]: "spawned (step_lookup req st) = spawned st"
  by (simp add: step_lookup_def Let_def split: promise.splits option.splits)

lemma step_exit_spawned [simp]: "spawned (step_exit st) = spawned st"
  by (simp add: step_exit_def split: promise.splits sum.splits)

lemma on_log_spawned [simp]: "spawned (on_log st el) = spawned st"
  by (simp add: on_log_def Let_def split: sum.splits)

lemma on_res_data_spawned [simp]: "spawned (on_res_data st buf) = spawned st"
  by (simp add: on_res_data_def split: option.splits sum.splits)

lemma on_res_end_spawned [simp]: "spawned (on_res_end st) = spawned st"
  by (simp add: on_res_end_def split: option.splits sum.splits)

lemma on_error_spawned [simp]: "spawned (on_error st) = spawned st"
  by (simp add: on_error_def split: option.splits)

lemma handler_event_spawned [simp]: "spawned (handler_event req st ev) = spawned st"
  by (cases ev) (simp_all add: handler_event_def advance_def)

lemma foldl_spawned [simp]: "spawned (foldl (handler_event req) st evs) = spawned st"
  by (induction evs arbitrary: st) simp_all

lemma handler_spawned: "spawned (handler ext e req evs) = spawned (handler_start ext e req)"
  by (simp add: handler_def)

lemma handler_start_spawned_le: "length (spawned (handler_start ext e req)) \<le> 1"
  by (simp add: handler_start_def handler_init_def Let_def split: option.splits)

lemma foldl_no_runtime: "spawned st = [] \<Longrightarrow> foldl (handler_event req) st evs = st"
  by (induction evs) (simp_all add: handler_event_def)

lemma handler_no_runtime:
  "spawned (handler_start ext e req) = [] \<Longrightarrow> handler ext e req evs = handler_start ext e req"
  by (simp add: handler_def foldl_no_runtime)

lemma handler_start_no_request [simp]:
  "runtimeReq (handler_start ext e req) = None" "runtimeRes (handler_start ext e req) = None"
  by (simp_all add: handler_start_def handler_init_def Let_def split: option.splits)

lemma proxying_spawned:
  "runtimeReq (handler ext e req evs) \<noteq> None \<or> runtimeRes (handler ext e req evs) \<noteq> None
     \<Longrightarrow> spawned (handler ext e req evs) \<noteq> []"
  using handler_no_runtime[of ext e req evs] by (auto simp: handler_spawned)

section \<open>At most one reply\<close>

lemma res_ok_ends: "res_ok r \<Longrightarrow> ends (wire r) = (if finished r then 1 else 0)"
  by (simp add: res_ok_def)

lemma res_ok_heads: "res_ok r \<Longrightarrow> heads (wire r) = (if headersSent r then 1 else 0)"
  by (simp add: res_ok_def)

lemma res_ok_unsent: "res_ok r \<Longrightarrow> \<not> headersSent r \<Longrightarrow> r = cors_response"
  by (simp add: res_ok_def)

lemma foldl_finished:
  "res_ok (res st) \<Longrightarrow> finished (res st) \<Longrightarrow> finished (res (foldl (handler_event req) st evs))"
  using foldl_grows grows_finished by blast

lemma advance_finished:
  "res_ok (res st) \<Longrightarrow> finished (res st) \<Longrightarrow> finished (res (advance req st))"
  using advance_grows grows_finished by blast

lemma on_res_end_finished:
  "runtimeRes st \<noteq> None \<Longrightarrow> finished (res (on_res_end st))"
  by (cases "runtimeRes st") (auto simp: on_res_end_def forwardStatusAndHeaders_eq)

lemma on_error_finished:
  "runtimeReq st \<noteq> None \<Longrightarrow> finished (res (on_error st))"
  by (cases "runtimeReq st") (auto simp: on_error_def)

lemma end_event_finishes:
  assumes "res_ok (res st)" and "spawned st \<noteq> []" and "runtimeRes st \<noteq> None"
    and "ev = ResEnd \<or> ev = ResClose"
  shows "finished (res (handler_event req st ev))"
proof -
  from assms(2,4) have "handler_event req st ev = advance req (on_res_end st)"
    by (auto simp: handler_event_def)
  with advance_finished[OF grows_res_ok[OF on_res_end_grows[OF assms(1)]]
                           on_res_end_finished[OF assms(3)]]
  show ?thesis by simp
qed

lemma error_event_finishes:
  assumes "res_ok (res st)" and "spawned st \<noteq> []" and "runtimeReq st \<noteq> None"
    and "ev = ReqError \<or> ev = PipeError"
  shows "finished (res (handler_event req st ev))"
proof -
  from assms(2,4) have "handler_event req st ev = advance req (on_error st)"
    by (auto simp: handler_event_def)
  with advance_finished[OF grows_res_ok[OF on_error_grows[OF assms(1)]]
                           on_error_finished[OF assms(3)]]
  show ?thesis by simp
qed

lemma grows_head: "grows r r' \<Longrightarrow> wire r = h # t \<Longrightarrow> \<exists>rest. wire r' = h # rest"
  by (auto simp: grows_def)

lemma first_event_head:
  assumes "runtimeRes st = Some (sc, hs)" and "res st = cors_response"
    and "ev = ResData buf \<or> ev = ResEnd \<or> ev = ResClose"
  shows "\<exists>t. wire (res (case ev of ResData b \<Rightarrow> on_res_data st b | _ \<Rightarrow> on_res_end st))
           = WHead (status_or_200 sc) (forwarded hs (headers cors_response)) # t"
  using assms
  by (auto simp: on_res_data_def on_res_end_def forwardStatusAndHeaders_eq res_write_def
                 res_end_def flushHeaders_def Let_def)

lemma first_event_forwards:
  assumes ok: "res_ok (res st)" and sp: "spawned st \<noteq> []"
    and rr: "runtimeRes st = Some (sc, hs)" and un: "\<not> headersSent (res st)"
    and ev: "ev = ResData buf \<or> ev = ResEnd \<or> ev = ResClose"
  shows "\<exists>rest. wire (res (foldl (handler_event req) (handler_event req st ev) post))
           = WHead (status_or_200 sc) (forwarded hs (headers cors_response)) # rest
           \<and> heads rest = 0"
proof -
  let ?X = "case ev of ResData b \<Rightarrow> on_res_data st b | _ \<Rightarrow> on_res_end st"
  let ?h = "WHead (status_or_200 sc) (forwarded hs (headers cors_response))"
  from ev sp have he: "handler_event req st ev = advance req ?X"
    by (auto simp: handler_event_def)
  from first_event_head[OF rr res_ok_unsent[OF ok un] ev]
  obtain t where t: "wire (res ?X) = ?h # t" by blast
  have gX: "grows (res st) (res ?X)"
    using ev on_res_data_grows[OF ok] on_res_end_grows[OF ok] by auto
  then have okX: "res_ok (res ?X)" by (rule grows_res_ok)
  from grows_head[OF advance_grows[OF okX] t] he
  obtain t' where t': "wire (res (handler_event req st ev)) = ?h # t'" by auto
  have okE: "res_ok (res (handler_event req st ev))"
    using handler_event_grows[OF ok] by (rule grows_res_ok)
  from grows_head[OF foldl_grows[OF okE] t']
  obtain rest where
    r: "wire (res (foldl (handler_event req) (handler_event req st ev) post)) = ?h # rest"
    by blast
  have "res_ok (res (foldl (handler_event req) (handler_event req st ev) post))"
    using foldl_grows[OF okE] by (rule grows_res_ok)
  from res_ok_heads[OF this] r have "heads rest = 0" by (simp split: if_splits)
  with r show ?thesis by blast
qed

lemma grows_frozen: "grows r r' \<Longrightarrow> finished r \<Longrightarrow> wire r' = wire r"
  by (simp add: grows_def)

lemma wire_sent:
  "wire (sent ct body) = [WHead 200 (headers (sent ct body)), WBody body, WEnd]"
  by (simp add: sent_def res_end_def flushHeaders_def Let_def)

lemma sent_finished: "finished (sent ct body)"
  by (simp add: sent_def)

lemma on_log_fatal_unsent:
  assumes "res st = cors_response" and "el_level el = ''FATAL''"
  shows "res (on_log st el) = sent ''text/html; charset=utf-8'' (el_text el)"
  using assms by (simp add: on_log_def Let_def res_send_def send_with_def sent_def)

lemma fatal_sends_text:
  assumes ok: "res_ok (res st)" and sp: "spawned st \<noteq> []"
    and un: "\<not> headersSent (res st)" and f: "el_level el = ''FATAL''"
  shows "wire (res (foldl (handler_event req) (handler_event req st (Log el)) post))
           = [WHead 200 (headers (sent ''text/html; charset=utf-8'' (el_text el))),
              WBody (el_text el), WEnd]"
proof -
  let ?X = "on_log st el"
  have rx: "res ?X = sent ''text/html; charset=utf-8'' (el_text el)"
    using on_log_fatal_unsent[OF res_ok_unsent[OF ok un] f] .
  then have fx: "finished (res ?X)" by (simp add: sent_finished)
  have okX: "res_ok (res ?X)" using on_log_grows[OF ok] by (rule grows_res_ok)
  have he: "handler_event req st (Log el) = advance req ?X"
    using sp by (simp add: handler_event_def)
  have w1: "wire (res (handler_event req st (Log el))) = wire (res ?X)"
    using grows_frozen[OF advance_grows[OF okX] fx] he by simp
  have okE: "res_ok (res (handler_event req st (Log el)))"
    using handler_event_grows[OF ok] by (rule grows_res_ok)
  have fe: "finished (res (handler_event req st (Log el)))"
    using advance_finished[OF okX fx] he by simp
  have "wire (res (foldl (handler_event req) (handler_event req st (Log el)) post))
          = wire (res (handler_event req st (Log el)))"
    using grows_frozen[OF foldl_grows[OF okE] fe] .
  with w1 rx show ?thesis by (simp add: wire_sent)
qed

text \<open>
  Claim C1, as the code has it. For every request the handler starts at most one
  runtime, and the client is sent at most one head (status line and headers) and at most
  one end, whatever records the worker emits and whatever the exchange with the worker
  delivers. The outbound response has been ended exactly once as soon as one of these
  has happened: with the handler proxying to an HTTP trigger, an \<^verbatim>\<open>end\<close> or
  \<^verbatim>\<open>close\<close> of the worker's response or an error of the request to the worker; or a
  FATAL record emitted while nothing was sent yet, whose text is then the whole reply,
  with status 200. When nothing was sent before, the first of the \<^verbatim>\<open>data\<close>,
  \<^verbatim>\<open>close\<close> and \<^verbatim>\<open>end\<close> events sends the worker's status (200 if missing) and
  the CORS headers with the worker's headers set over them, header names compared
  without case, and no later event sends a head again.
\<close>

theorem http_reply_at_most_once:
  "length (spawned (handler ext e req evs)) \<le> 1
   \<and> heads (wire (res (handler ext e req evs))) \<le> 1
   \<and> ends (wire (res (handler ext e req evs))) \<le> 1
   \<and> (evs = pre1 @ ev1 # post1 \<and> runtimeRes (handler ext e req pre1) \<noteq> None
        \<and> (ev1 = ResEnd \<or> ev1 = ResClose) \<longrightarrow>
      ends (wire (res (handler ext e req evs))) = 1)
   \<and> (evs = pre2 @ ev2 # post2 \<and> runtimeReq (handler ext e req pre2) \<noteq> None
        \<and> (ev2 = ReqError \<or> ev2 = PipeError) \<longrightarrow>
      ends (wire (res (handler ext e req evs))) = 1)
   \<and> (evs = pre3 @ ev3 # post3 \<and> runtimeRes (handler ext e req pre3) = Some (sc, hs)
        \<and> \<not> headersSent (res (handler ext e req pre3))
        \<and> (ev3 = ResData buf \<or> ev3 = ResEnd \<or> ev3 = ResClose) \<longrightarrow>
      (\<exists>rest. wire (res (handler ext e req evs))
                = WHead (status_or_200 sc) (forwarded hs (headers cors_response)) # rest
              \<and> heads rest = 0))
   \<and> (evs = pre4 @ Log el # post4 \<and> spawned (handler ext e req pre4) \<noteq> []
        \<and> el_level el = ''FATAL'' \<and> \<not> headersSent (res (handler ext e req pre4)) \<longrightarrow>
      wire (res (handler ext e req evs))
        = [WHead 200 (headers (sent ''text/html; charset=utf-8'' (el_text el))),
           WBody (el_text el), WEnd])"
proof (intro conjI impI)
  show "length (spawned (handler ext e req evs)) \<le> 1"
    using handler_start_spawned_le[of ext e req] by (simp add: handler_spawned)
  show "heads (wire (res (handler ext e req evs))) \<le> 1"
    using res_ok_heads[OF handler_res_ok, of ext e req evs] by simp
  show "ends (wire (res (handler ext e req evs))) \<le> 1"
    using res_ok_ends[OF handler_res_ok, of ext e req evs] by simp
next
  assume h: "evs = pre1 @ ev1 # post1 \<and> runtimeRes (handler ext e req pre1) \<noteq> None
        \<and> (ev1 = ResEnd \<or> ev1 = ResClose)"
  let ?st = "handler ext e req pre1"
  from h have sp: "spawned ?st \<noteq> []" using proxying_spawned by blast
  from h end_event_finishes[OF handler_res_ok sp, where ev=ev1 and req=req]
  have "finished (res (handler_event req ?st ev1))" by blast
  from foldl_finished[OF grows_res_ok[OF handler_event_grows[OF handler_res_ok]] this, where evs=post1] h
  have "finished (res (handler ext e req evs))" by (simp add: handler_append)
  with res_ok_ends[OF handler_res_ok, of ext e req evs]
  show "ends (wire (res (handler ext e req evs))) = 1" by simp
next
  assume h: "evs = pre2 @ ev2 # post2 \<and> runtimeReq (handler ext e req pre2) \<noteq> None
        \<and> (ev2 = ReqError \<or> ev2 = PipeError)"
  let ?st = "handler ext e req pre2"
  from h have sp: "spawned ?st \<noteq> []" using proxying_spawned by blast
  from h error_event_finishes[OF handler_res_ok sp, where ev=ev2 and req=req]
  have "finished (res (handler_event req ?st ev2))" by blast
  from foldl_finished[OF grows_res_ok[OF handler_event_grows[OF handler_res_ok]] this, where evs=post2] h
  have "finished (res (handler ext e req evs))" by (simp add: handler_append)
  with res_ok_ends[OF handler_res_ok, of ext e req evs]
  show "ends (wire (res (handler ext e req evs))) = 1" by simp
next
  assume h: "evs = pre3 @ ev3 # post3 \<and> runtimeRes (handler ext e req pre3) = Some (sc, hs)
        \<and> \<not> headersSent (res (handler ext e req pre3))
        \<and> (ev3 = ResData buf \<or> ev3 = ResEnd \<or> ev3 = ResClose)"
  let ?st = "handler ext e req pre3"
  from h have sp: "spawned ?st \<noteq> []" using proxying_spawned[of ext e req pre3] by simp
  from h have rr: "runtimeRes ?st = Some (sc, hs)" and un: "\<not> headersSent (res ?st)"
    and ev: "ev3 = ResData buf \<or> ev3 = ResEnd \<or> ev3 = ResClose" by simp_all
  from first_event_forwards[OF handler_res_ok sp rr un ev, where post=post3] h
  show "\<exists>rest. wire (res (handler ext e req evs))
                = WHead (status_or_200 sc) (forwarded hs (headers cors_response)) # rest
              \<and> heads rest = 0"
    by (simp add: handler_append)
next
  assume h: "evs = pre4 @ Log el # post4 \<and> spawned (handler ext e req pre4) \<noteq> []
        \<and> el_level el = ''FATAL'' \<and> \<not> headersSent (res (handler ext e req pre4))"
  then have sp: "spawned (handler ext e req pre4) \<noteq> []"
    and f: "el_level el = ''FATAL''" and un: "\<not> headersSent (res (handler ext e req pre4))"
    by simp_all
  from fatal_sends_text[OF handler_res_ok sp un f, where post=post4] h
  show "wire (res (handler ext e req evs))
        = [WHead 200 (headers (sent ''text/html; charset=utf-8'' (el_text el))),
           WBody (el_text el), WEnd]"
    by (simp add: handler_append)
qed

theorem http_reply_at_most_once_witness:
  "runtimeRes (handler example_ext example_emulator (example_request ''echo'' ''{}'')
      [Log (parsed_log [echo_definition, onWrite_definition]), Log ready_log,
       RuntimeResponse (Some 201)
         [(''access-control-allow-origin'', ''https://a.example''), (''x-a'', ''1'')], ResData ''hi'']) \<noteq> None
   \<and> runtimeReq (handler example_ext example_emulator (example_request ''echo'' ''{}'')
      [Log (parsed_log [echo_definition, onWrite_definition]), Log ready_log,
       RuntimeResponse (Some 201)
         [(''access-control-allow-origin'', ''https://a.example''), (''x-a'', ''1'')], ResData ''hi'', ResEnd]) \<noteq> None
   \<and> runtimeRes (handler example_ext example_emulator (example_request ''echo'' ''{}'')
      [Log (parsed_log [echo_definition, onWrite_definition]), Log ready_log,
       RuntimeResponse (Some 201)
         [(''access-control-allow-origin'', ''https://a.example''), (''x-a'', ''1'')]]) 
      = Some (Some 201, [(''access-control-allow-origin'', ''https://a.example''), (''x-a'', ''1'')])
   \<and> \<not> headersSent (res (handler example_ext example_emulator (example_request ''echo'' ''{}'')
      [Log (parsed_log [echo_definition, onWrite_definition]), Log ready_log,
       RuntimeResponse (Some 201)
         [(''access-control-allow-origin'', ''https://a.example''), (''x-a'', ''1'')]]))
   \<and> length (spawned (handler example_ext example_emulator (example_request ''echo'' ''{}'')
      [Log (parsed_log [echo_definition, onWrite_definition]), Log ready_log,
       RuntimeResponse (Some 201)
         [(''access-control-allow-origin'', ''https://a.example''), (''x-a'', ''1'')], ResData ''hi'', ResEnd, ReqError])) \<le> 1
   \<and> ends (wire (res (handler example_ext example_emulator (example_request ''echo'' ''{}'')
      [Log (parsed_log [echo_definition, onWrite_definition]), Log ready_log,
       RuntimeResponse (Some 201)
         [(''access-control-allow-origin'', ''https://a.example''), (''x-a'', ''1'')], ResData ''hi'', ResEnd, ReqError]))) = 1
   \<and> (\<exists>rest. wire (res (handler example_ext example_emulator (example_request ''echo'' ''{}'')
      [Log (parsed_log [echo_definition, onWrite_definition]), Log ready_log,
       RuntimeResponse (Some 201)
         [(''access-control-allow-origin'', ''https://a.example''), (''x-a'', ''1'')], ResData ''hi'', ResEnd, ReqError]))
        = WHead 201
            [(''access-control-allow-origin'', ''https://a.example''),
             (''Access-Control-Allow-Headers'',
              ''Origin, X-Requested-With, Content-Type, Authorization, Accept''),
             (''Access-Control-Allow-Methods'', ''GET,OPTIONS,POST''),
             (''x-a'', ''1'')] # rest
        \<and> heads rest = 0)
   \<and> spawned (handler example_ext example_emulator (example_request ''echo'' ''{}'')
      [Log (parsed_log [echo_definition, onWrite_definition]), Log ready_log]) \<noteq> []
   \<and> el_level (example_log ''FATAL'' ''log'' ''boom'') = ''FATAL''
   \<and> \<not> headersSent (res (handler example_ext example_emulator (example_request ''echo'' ''{}'')
      [Log (parsed_log [echo_definition, onWrite_definition]), Log ready_log]))
   \<and> wire (res (handler example_ext example_emulator (example_request ''echo'' ''{}'')
      [Log (parsed_log [echo_definition, onWrite_definition]), Log ready_log,
       Log (example_log ''FATAL'' ''log'' ''boom''),
       RuntimeResponse (Some 201)
         [(''access-control-allow-origin'', ''https://a.example''), (''x-a'', ''1'')], ResData ''hi'', ResEnd]))
      = [WHead 200
           [(''Access-Control-Allow-Origin'', ''*''),
            (''Access-Control-Allow-Headers'',
             ''Origin, X-Requested-With, Content-Type, Authorization, Accept''),
            (''Access-Control-Allow-Methods'', ''GET,OPTIONS,POST''),
            (''Content-Type'', ''text/html; charset=utf-8''),
            (''Content-Length'', ''4'')],
         WBody ''boom'', WEnd]"
proof -
  let ?P = "Log (parsed_log [echo_definition, onWrite_definition])"
  let ?RR = "RuntimeResponse (Some 201)
         [(''access-control-allow-origin'', ''https://a.example''), (''x-a'', ''1'')]"
  let ?F = "example_log ''FATAL'' ''log'' ''boom''"
  let ?h = "handler example_ext example_emulator (example_request ''echo'' ''{}'')"
  have a: "runtimeRes (?h [?P, Log ready_log, ?RR, ResData ''hi'']) \<noteq> None"
    by code_simp
  have b: "runtimeReq (?h [?P, Log ready_log, ?RR, ResData ''hi'', ResEnd]) \<noteq> None"
    by code_simp
  have c: "runtimeRes (?h [?P, Log ready_log, ?RR]) 
      = Some (Some 201, [(''access-control-allow-origin'', ''https://a.example''), (''x-a'', ''1'')])"
    by code_simp
  have d: "\<not> headersSent (res (?h [?P, Log ready_log, ?RR]))"
    by code_simp
  have f1: "spawned (?h [?P, Log ready_log]) \<noteq> []" by code_simp
  have f2: "el_level ?F = ''FATAL''" by code_simp
  have f3: "\<not> headersSent (res (?h [?P, Log ready_log]))" by code_simp
  have v1: "status_or_200 (Some 201) = 201" by code_simp
  have v2: "forwarded [(''access-control-allow-origin'', ''https://a.example''), (''x-a'', ''1'')] (headers cors_response)
      = [(''access-control-allow-origin'', ''https://a.example''),
         (''Access-Control-Allow-Headers'',
          ''Origin, X-Requested-With, Content-Type, Authorization, Accept''),
         (''Access-Control-Allow-Methods'', ''GET,OPTIONS,POST''),
         (''x-a'', ''1'')]"
    by code_simp
  have v3: "headers (sent ''text/html; charset=utf-8'' ''boom'')
      = [(''Access-Control-Allow-Origin'', ''*''),
         (''Access-Control-Allow-Headers'',
          ''Origin, X-Requested-With, Content-Type, Authorization, Accept''),
         (''Access-Control-Allow-Methods'', ''GET,OPTIONS,POST''),
         (''Content-Type'', ''text/html; charset=utf-8''),
         (''Content-Length'', ''4'')]"
    by code_simp
  have v4: "el_text ?F = ''boom''" by code_simp
  have s1: "[?P, Log ready_log, ?RR, ResData ''hi'', ResEnd, ReqError]
              = [?P, Log ready_log, ?RR, ResData ''hi''] @ ResEnd # [ReqError]" by simp
  have s2: "[?P, Log ready_log, ?RR, ResData ''hi'', ResEnd, ReqError]
              = [?P, Log ready_log, ?RR, ResData ''hi'', ResEnd] @ ReqError # []" by simp
  have s3: "[?P, Log ready_log, ?RR, ResData ''hi'', ResEnd, ReqError]
              = [?P, Log ready_log, ?RR] @ ResData ''hi'' # [ResEnd, ReqError]" by simp
  have s4: "[?P, Log ready_log, Log ?F, ?RR, ResData ''hi'', ResEnd]
              = [?P, Log ready_log] @ Log ?F # [?RR, ResData ''hi'', ResEnd]" by simp
  note A = http_reply_at_most_once
         [where ext=example_ext and e=example_emulator and req="example_request ''echo'' ''{}''"
            and evs="[?P, Log ready_log, ?RR, ResData ''hi'', ResEnd, ReqError]"
            and ?pre1.0="[?P, Log ready_log, ?RR, ResData ''hi'']" and ?ev1.0=ResEnd
            and ?post1.0="[ReqError]"
            and ?pre2.0="[?P, Log ready_log, ?RR, ResData ''hi'', ResEnd]" and ?ev2.0=ReqError
            and ?post2.0="[]"
            and ?pre3.0="[?P, Log ready_log, ?RR]" and ?ev3.0="ResData ''hi''"
            and ?post3.0="[ResEnd, ReqError]"
            and sc="Some 201" and hs="[(''access-control-allow-origin'', ''https://a.example''), (''x-a'', ''1'')]" and buf="''hi''"]
  note B = http_reply_at_most_once
         [where ext=example_ext and e=example_emulator and req="example_request ''echo'' ''{}''"
            and evs="[?P, Log ready_log, Log ?F, ?RR, ResData ''hi'', ResEnd]"
            and ?pre4.0="[?P, Log ready_log]" and el="?F"
            and ?post4.0="[?RR, ResData ''hi'', ResEnd]"]
  from A a b c d s1 s2 s3
  have r1: "length (spawned (?h [?P, Log ready_log, ?RR, ResData ''hi'', ResEnd, ReqError])) \<le> 1
     \<and> ends (wire (res (?h [?P, Log ready_log, ?RR, ResData ''hi'', ResEnd, ReqError]))) = 1
     \<and> (\<exists>rest. wire (res (?h [?P, Log ready_log, ?RR, ResData ''hi'', ResEnd, ReqError]))
            = WHead (status_or_200 (Some 201))
                (forwarded [(''access-control-allow-origin'', ''https://a.example''), (''x-a'', ''1'')] (headers cors_response)) # rest
          \<and> heads rest = 0)"
    by blast
  from B f1 f2 f3 s4
  have r2: "wire (res (?h [?P, Log ready_log, Log ?F, ?RR, ResData ''hi'', ResEnd]))
      = [WHead 200 (headers (sent ''text/html; charset=utf-8'' (el_text ?F))),
         WBody (el_text ?F), WEnd]"
    by blast
  note r1' = r1[unfolded v1 v2]
  note r2' = r2[unfolded v4, unfolded v3]
  from r1' r2' a b c d f1 f2 f3 show ?thesis
    by blast
qed

text \<open>
  The claim as stated fails: a worker of the HTTP trigger \<^verbatim>\<open>echo\<close> that becomes
  ready and then sends nothing leaves the handler waiting for its exit, with the
  outbound response not ended; the handler sets no timeout.
\<close>

theorem http_reply_counterexample:
  "phase (handler example_ext example_emulator (example_request ''echo'' ''{}'')
      [Log (parsed_log [echo_definition, onWrite_definition]), Log ready_log]) = AwaitExitHttp
   \<and> runtimeReq (handler example_ext example_emulator (example_request ''echo'' ''{}'')
      [Log (parsed_log [echo_definition, onWrite_definition]), Log ready_log]) \<noteq> None
   \<and> ends (wire (res (handler example_ext example_emulator (example_request ''echo'' ''{}'')
      [Log (parsed_log [echo_definition, onWrite_definition]), Log ready_log]))) = 0"
  by code_simp

section \<open>The handler in closed form\<close>

lemma emitted_append [simp]: "emitted (xs @ ys) = emitted xs @ emitted ys"
  by (induction xs rule: emitted.induct) auto

lemma exit_codes_append [simp]: "exit_codes (xs @ ys) = exit_codes xs @ exit_codes ys"
  by (induction xs rule: exit_codes.induct) auto

lemma waitForLog_snoc:
  "waitForLog (logs @ [el]) level type filt
     = waitForLog_listener level type filt (waitForLog logs level type filt) el"
  by (simp add: waitForLog_def)

lemma first_exit_snoc:
  "first_exit (evs @ [ev])
     = (case ev of Exit c \<Rightarrow> resolve c (first_exit evs) | _ \<Rightarrow> first_exit evs)"
  by (cases ev) (auto simp: first_exit_def resolve_def split: list.splits)

lemma settles_listener: "settles p (waitForLog_listener level type filt p el)"
  by (auto simp: settles_def waitForLog_listener_def resolve_def Let_def split: promise.splits)

lemma settles_resolve: "settles p (resolve v p)"
  by (auto simp: settles_def resolve_def split: promise.splits)

lemma settles_refl: "settles p p"
  by (simp add: settles_def)

lemma fatal_not_system:
  "el_level el = ''FATAL'' \<Longrightarrow> waitForLog_listener ''SYSTEM'' type filt p el = p"
  by (simp add: waitForLog_listener_def Let_def)

text \<open>The three promises of the handler, in closed form.\<close>

lemma on_log_promises:
  "readyLog (on_log st el)
     = waitForLog_listener ''SYSTEM'' ''runtime-status'' (Some is_ready) (readyLog st) el"
  "triggerLogPromise (on_log st el)
     = waitForLog_listener ''SYSTEM'' ''triggers-parsed'' None (triggerLogPromise st) el"
  "exit (on_log st el) = exit st"
  by (auto simp: on_log_def Let_def fatal_not_system split: sum.splits)

lemma step_promises [simp]:
  "readyLog (step_ready st) = readyLog st"
  "triggerLogPromise (step_ready st) = triggerLogPromise st"
  "exit (step_ready st) = exit st"
  "readyLog (step_lookup req st) = readyLog st"
  "triggerLogPromise (step_lookup req st) = triggerLogPromise st"
  "exit (step_lookup req st) = exit st"
  "readyLog (step_exit st) = readyLog st"
  "triggerLogPromise (step_exit st) = triggerLogPromise st"
  "exit (step_exit st) = exit st"
  by (simp_all add: step_ready_def step_lookup_def step_exit_def Let_def
               split: promise.splits option.splits sum.splits)

lemma other_promises [simp]:
  "readyLog (on_res_data st buf) = readyLog st"
  "triggerLogPromise (on_res_data st buf) = triggerLogPromise st"
  "exit (on_res_data st buf) = exit st"
  "readyLog (on_res_end st) = readyLog st"
  "triggerLogPromise (on_res_end st) = triggerLogPromise st"
  "exit (on_res_end st) = exit st"
  "readyLog (on_error st) = readyLog st"
  "triggerLogPromise (on_error st) = triggerLogPromise st"
  "exit (on_error st) = exit st"
  by (simp_all add: on_res_data_def on_res_end_def on_error_def split: option.splits sum.splits)

lemma handler_event_promises:
  assumes "spawned st \<noteq> []"
  shows "readyLog (handler_event req st ev)
           = (case ev of Log el \<Rightarrow>
                waitForLog_listener ''SYSTEM'' ''runtime-status'' (Some is_ready) (readyLog st) el
              | _ \<Rightarrow> readyLog st)"
    and "triggerLogPromise (handler_event req st ev)
           = (case ev of Log el \<Rightarrow>
                waitForLog_listener ''SYSTEM'' ''triggers-parsed'' None (triggerLogPromise st) el
              | _ \<Rightarrow> triggerLogPromise st)"
    and "exit (handler_event req st ev)
           = (case ev of Exit c \<Rightarrow> resolve c (exit st) | _ \<Rightarrow> exit st)"
  using assms
  by (cases ev; simp add: handler_event_def advance_def on_log_promises)+

lemma handler_start_promises:
  "readyLog (handler_start ext e req) = Pending"
  "triggerLogPromise (handler_start ext e req) = Pending"
  "exit (handler_start ext e req) = Pending"
  "phase (handler_start ext e req) = AwaitReady \<or> spawned (handler_start ext e req) = []"
  by (simp_all add: handler_start_def handler_init_def Let_def split: option.splits)

lemma handler_snoc: "handler ext e req (evs @ [ev]) = handler_event req (handler ext e req evs) ev"
  by (simp add: handler_def)

lemma handler_promises:
  assumes "spawned (handler_start ext e req) \<noteq> []"
  shows "readyLog (handler ext e req evs) = ready_wait (emitted evs)
       \<and> triggerLogPromise (handler ext e req evs) = triggers_wait (emitted evs)
       \<and> exit (handler ext e req evs) = first_exit evs"
proof (induction evs rule: rev_induct)
  case Nil
  show ?case
    by (simp add: handler_def handler_start_promises ready_wait_def triggers_wait_def
                  waitForLog_def first_exit_def)
next
  case (snoc ev evs)
  have sp: "spawned (handler ext e req evs) \<noteq> []" using assms by (simp add: handler_spawned)
  show ?case
    using snoc
    by (cases ev)
       (simp_all add: handler_snoc handler_event_promises[OF sp] ready_wait_def triggers_wait_def
                      waitForLog_snoc first_exit_snoc)
qed

lemma res_json_cors: "res_json acknowledged cors_response = Inr ack_res"
  by (simp add: res_json_def send_with_def ack_res_def sent_def)

lemma step_ready_phase: "phase (step_ready st) = phase_ready (readyLog st) (phase st)"
  by (simp add: step_ready_def phase_ready_def split: promise.splits)

lemma step_lookup_phase:
  "phase (step_lookup req st) = phase_lookup req (triggerLogPromise st) (phase st)"
  by (simp add: step_lookup_def phase_lookup_def lookup_trigger_def Let_def
           split: promise.splits option.splits)

lemma step_exit_phase:
  "phase (step_exit st) = phase_exit (exit st) (headersSent (res st)) (phase st)"
  by (simp add: step_exit_def phase_exit_def res_json_def send_with_def split: promise.splits)

lemma advance_phase:
  "phase (advance req st)
     = phase_exit (exit st) (headersSent (res st))
         (phase_lookup req (triggerLogPromise st) (phase_ready (readyLog st) (phase st)))"
  by (simp add: advance_def step_exit_phase step_lookup_phase step_ready_phase)

lemma pure_advance:
  assumes "settles rl rl'" and "settles tp tp'" and "settles ex ex'"
    and "undisturbed req rl' tp' ex' nofatal"
  shows "phase_lookup req tp' (phase_ready rl' (phase_of req rl tp ex)) \<noteq> AwaitExitHttp
     \<and> (phase_lookup req tp' (phase_ready rl' (phase_of req rl tp ex)) = AwaitExitBackground
          \<and> (\<exists>c. ex' = Fulfilled c) \<longrightarrow> nofatal)
     \<and> ((phase_lookup req tp' (phase_ready rl' (phase_of req rl tp ex)) = AwaitExitBackground
          \<and> (\<exists>c. ex' = Fulfilled c) \<longrightarrow> \<not> b) \<longrightarrow>
         phase_exit ex' b (phase_lookup req tp' (phase_ready rl' (phase_of req rl tp ex)))
           = phase_of req rl' tp' ex')
     \<and> (phase_lookup req tp' (phase_ready rl' (phase_of req rl tp ex)) = Returned
          \<longleftrightarrow> phase_of req rl tp ex = Returned)"
  using assms
  apply (cases rl; cases tp; cases ex; cases rl'; cases tp'; cases ex';
         simp add: settles_def undisturbed_def phase_of_def phase_ready_def phase_lookup_def
                   phase_exit_def split: option.splits)
  apply auto
  done

lemma step_fields [simp]:
  "runtimeReq (step_ready st) = runtimeReq st"
  "runtimeRes (step_ready st) = runtimeRes st"
  "runtimeRes (step_lookup req st) = runtimeRes st"
  "runtimeReq (step_exit st) = runtimeReq st"
  "runtimeRes (step_exit st) = runtimeRes st"
  by (simp_all add: step_ready_def step_lookup_def step_exit_def Let_def
               split: promise.splits option.splits sum.splits)

lemma step_lookup_runtimeReq:
  "phase (step_lookup req st) \<noteq> AwaitExitHttp \<Longrightarrow> runtimeReq (step_lookup req st) = runtimeReq st"
  by (auto simp: step_lookup_def Let_def split: promise.splits option.splits if_splits)

lemma step_exit_res_ack:
  "phase st = AwaitExitBackground \<Longrightarrow> exit st = Fulfilled c \<Longrightarrow> res st = cors_response
     \<Longrightarrow> res (step_exit st) = ack_res"
  by (simp add: step_exit_def res_json_cors)

lemma step_exit_res_same:
  "phase st \<noteq> AwaitExitBackground \<or> (\<forall>c. exit st \<noteq> Fulfilled c) \<Longrightarrow> res (step_exit st) = res st"
  by (auto simp: step_exit_def split: promise.splits)

lemma phase_exit_same:
  "p \<noteq> AwaitExitHttp \<Longrightarrow> p \<noteq> AwaitExitBackground \<or> (\<forall>c. ex \<noteq> Fulfilled c)
     \<Longrightarrow> phase_exit ex b p = p"
  by (auto simp: phase_exit_def split: promise.splits)

lemma advance_closed:
  assumes nr: "runtimeReq X = None" "runtimeRes X = None"
    and ph: "phase X = phase_of req rl tp ex"
    and m: "settles rl (readyLog X)" "settles tp (triggerLogPromise X)" "settles ex (exit X)"
    and rs: "res X = (if phase X = Returned then ack_res else R)"
    and nf: "nofatal \<longrightarrow> R = cors_response"
    and d: "undisturbed req (readyLog X) (triggerLogPromise X) (exit X) nofatal"
  shows "runtimeReq (advance req X) = None \<and> runtimeRes (advance req X) = None
         \<and> phase (advance req X) = phase_of req (readyLog X) (triggerLogPromise X) (exit X)
         \<and> res (advance req X) = (if phase (advance req X) = Returned then ack_res else R)"
proof -
  let ?Y = "step_lookup req (step_ready X)"
  let ?mid = "phase_lookup req (triggerLogPromise X) (phase_ready (readyLog X) (phase X))"
  have midY: "phase ?Y = ?mid" by (simp add: step_lookup_phase step_ready_phase)
  note pa = pure_advance[OF m d, of "headersSent (res X)", folded ph]
  from pa have a: "?mid \<noteq> AwaitExitHttp" by blast
  from pa have b: "?mid = AwaitExitBackground \<and> (\<exists>c. exit X = Fulfilled c) \<longrightarrow> nofatal" by blast
  from pa have dd: "?mid = Returned \<longleftrightarrow> phase X = Returned" by blast
  have resY: "res ?Y = res X" by simp
  have exY: "exit ?Y = exit X" by simp
  have rq: "runtimeReq (advance req X) = None"
    using step_lookup_runtimeReq[of req "step_ready X"] a midY nr by (simp add: advance_def)
  have rp: "runtimeRes (advance req X) = None" using nr by (simp add: advance_def)
  show ?thesis
  proof (cases "?mid = AwaitExitBackground \<and> (\<exists>c. exit X = Fulfilled c)")
    case True
    then obtain c where c: "exit X = Fulfilled c" by blast
    from True b have "nofatal" by blast
    with nf have R: "R = cors_response" by blast
    from True dd have "phase X \<noteq> Returned" by auto
    with rs R have rx: "res X = cors_response" by simp
    then have "\<not> headersSent (res X)" by simp
    with pa True have p: "phase (advance req X)
        = phase_of req (readyLog X) (triggerLogPromise X) (exit X)"
      by (simp add: advance_phase)
    have "phase (advance req X) = Returned"
      using True c rx by (simp add: advance_phase phase_exit_def)
    moreover have "res (advance req X) = ack_res"
      using step_exit_res_ack[of ?Y c] True midY c rx by (simp add: advance_def)
    ultimately show ?thesis using rq rp p by simp
  next
    case False
    then have f: "?mid \<noteq> AwaitExitBackground \<or> (\<forall>c. exit X \<noteq> Fulfilled c)" by blast
    from pa False have p: "phase (advance req X)
        = phase_of req (readyLog X) (triggerLogPromise X) (exit X)"
      by (simp add: advance_phase)
    have pm: "phase (advance req X) = ?mid"
      using phase_exit_same[OF a f] by (simp add: advance_phase)
    have "res (advance req X) = res X"
      using step_exit_res_same[of ?Y] f midY by (simp add: advance_def)
    with rs pm dd have "res (advance req X) = (if phase (advance req X) = Returned then ack_res else R)"
      by simp
    with rq rp p show ?thesis by simp
  qed
qed

lemma find_snoc:
  "find P (xs @ [x]) = (case find P xs of None \<Rightarrow> (if P x then Some x else None) | Some y \<Rightarrow> Some y)"
  by (induction xs) auto

lemma sent_headersSent [simp]: "headersSent (sent ct body)" "finished (sent ct body)"
  by (simp_all add: sent_def res_end_def flushHeaders_def Let_def)

lemma ack_res_headersSent [simp]: "headersSent ack_res"
  by (simp add: ack_res_def)

lemma res_send_cors:
  "res_send body cors_response = Inr (sent ''text/html; charset=utf-8'' body)"
  by (simp add: res_send_def send_with_def sent_def)

lemma res_send_sent: "headersSent r \<Longrightarrow> res_send body r = Inl ERR_HTTP_HEADERS_SENT"
  by (simp add: res_send_def send_with_def)

lemma fatal_res_snoc:
  "fatal_res (logs @ [el]) =
     (case find is_fatal logs of
        None \<Rightarrow> if is_fatal el then sent ''text/html; charset=utf-8'' (el_text el) else cors_response
      | Some x \<Rightarrow> fatal_res logs)"
  by (simp add: fatal_res_def find_snoc split: option.splits)

lemma fatal_res_headersSent: "find is_fatal logs = Some x \<Longrightarrow> headersSent (fatal_res logs)"
  by (simp add: fatal_res_def)

lemma fatal_res_none: "find is_fatal logs = None \<Longrightarrow> fatal_res logs = cors_response"
  by (simp add: fatal_res_def)

lemma on_log_closed:
  assumes rs: "res st = (if phase st = Returned then ack_res else fatal_res logs)"
  shows "runtimeReq (on_log st el) = runtimeReq st \<and> runtimeRes (on_log st el) = runtimeRes st
     \<and> phase (on_log st el) = phase st
     \<and> res (on_log st el) = (if phase st = Returned then ack_res else fatal_res (logs @ [el]))"
proof (cases "el_level el = ''FATAL''")
  case False
  then have "\<not> is_fatal el" by (simp add: is_fatal_def)
  then have "fatal_res (logs @ [el]) = fatal_res logs"
    by (cases "find is_fatal logs") (simp_all add: fatal_res_snoc fatal_res_none)
  with False rs show ?thesis
    by (simp add: on_log_def Let_def)
next
  case True
  then have f: "is_fatal el" by (simp add: is_fatal_def)
  show ?thesis
  proof (cases "headersSent (res st)")
    case sent: True
    have "fatal_res (logs @ [el]) = fatal_res logs" if "phase st \<noteq> Returned"
    proof (cases "find is_fatal logs")
      case None
      with that rs sent show ?thesis by (simp add: fatal_res_none)
    next
      case (Some x)
      then show ?thesis by (simp add: fatal_res_snoc)
    qed
    with True sent rs show ?thesis
      by (auto simp: on_log_def Let_def res_send_sent)
  next
    case unsent: False
    with rs have nr: "phase st \<noteq> Returned" by (auto split: if_splits)
    with rs unsent have n: "find is_fatal logs = None"
      using fatal_res_headersSent[of logs] by (cases "find is_fatal logs") auto
    with rs nr have "res st = cors_response" by (simp add: fatal_res_none)
    with True f n nr show ?thesis
      by (simp add: on_log_def Let_def res_send_cors fatal_res_snoc)
  qed
qed

lemma undisturbed_prefix:
  assumes "settles rl rl'" and "settles tp tp'" and "settles ex ex'" and "nf' \<longrightarrow> nf"
    and "undisturbed req rl' tp' ex' nf'"
  shows "undisturbed req rl tp ex nf"
  using assms
  by (cases rl; cases tp; cases ex; auto simp: settles_def undisturbed_def split: option.splits)

lemma waits_settle:
  "settles (ready_wait (emitted evs)) (ready_wait (emitted (evs @ [ev])))"
  "settles (triggers_wait (emitted evs)) (triggers_wait (emitted (evs @ [ev])))"
  "settles (first_exit evs) (first_exit (evs @ [ev]))"
  "find is_fatal (emitted (evs @ [ev])) = None \<longrightarrow> find is_fatal (emitted evs) = None"
proof -
  show "settles (ready_wait (emitted evs)) (ready_wait (emitted (evs @ [ev])))"
    by (cases ev) (simp_all add: ready_wait_def waitForLog_snoc settles_listener settles_refl)
  show "settles (triggers_wait (emitted evs)) (triggers_wait (emitted (evs @ [ev])))"
    by (cases ev) (simp_all add: triggers_wait_def waitForLog_snoc settles_listener settles_refl)
  show "settles (first_exit evs) (first_exit (evs @ [ev]))"
    by (cases ev) (simp_all add: first_exit_snoc settles_refl settles_resolve)
  show "find is_fatal (emitted (evs @ [ev])) = None \<longrightarrow> find is_fatal (emitted evs) = None"
    by (cases ev) (simp_all add: find_snoc split: option.splits)
qed

lemma undisturbed_snoc:
  assumes "undisturbed req (ready_wait (emitted (evs @ [ev]))) (triggers_wait (emitted (evs @ [ev])))
             (first_exit (evs @ [ev])) (find is_fatal (emitted (evs @ [ev])) = None)"
  shows "undisturbed req (ready_wait (emitted evs)) (triggers_wait (emitted evs))
             (first_exit evs) (find is_fatal (emitted evs) = None)"
  using undisturbed_prefix[OF waits_settle assms] .

lemma handler_closed:
  assumes sp: "spawned (handler_start ext e req) \<noteq> []"
    and d: "undisturbed req (ready_wait (emitted evs)) (triggers_wait (emitted evs))
              (first_exit evs) (find is_fatal (emitted evs) = None)"
  shows "runtimeReq (handler ext e req evs) = None \<and> runtimeRes (handler ext e req evs) = None
     \<and> phase (handler ext e req evs)
         = phase_of req (ready_wait (emitted evs)) (triggers_wait (emitted evs)) (first_exit evs)
     \<and> res (handler ext e req evs)
         = (if phase (handler ext e req evs) = Returned then ack_res
            else fatal_res (emitted evs))"
  using d
proof (induction evs rule: rev_induct)
  case Nil
  from sp handler_start_promises(4)[of ext e req]
  have "phase (handler_start ext e req) = AwaitReady" by simp
  then show ?case
    by (simp add: handler_def ready_wait_def triggers_wait_def waitForLog_def first_exit_def
                  phase_of_def fatal_res_def)
next
  case (snoc ev evs)
  let ?st = "handler ext e req evs"
  let ?X = "case ev of
              Log el \<Rightarrow> on_log ?st el
            | Exit code \<Rightarrow> ?st\<lparr>exit := resolve code (exit ?st)\<rparr>
            | RuntimeResponse sc hs \<Rightarrow>
                (if runtimeReq ?st \<noteq> None \<and> runtimeRes ?st = None
                 then ?st\<lparr>runtimeRes := Some (sc, hs)\<rparr> else ?st)
            | ResData buf \<Rightarrow> on_res_data ?st buf
            | ResClose \<Rightarrow> on_res_end ?st
            | ResEnd \<Rightarrow> on_res_end ?st
            | ReqError \<Rightarrow> on_error ?st
            | PipeError \<Rightarrow> on_error ?st"
  have sps: "spawned ?st \<noteq> []" using sp by (simp add: handler_spawned)
  from snoc.IH[OF undisturbed_snoc[OF snoc.prems]]
  have nr: "runtimeReq ?st = None" "runtimeRes ?st = None"
    and ph: "phase ?st
               = phase_of req (ready_wait (emitted evs)) (triggers_wait (emitted evs)) (first_exit evs)"
    and rs: "res ?st = (if phase ?st = Returned then ack_res else fatal_res (emitted evs))"
    by simp_all
  have he: "handler ext e req (evs @ [ev]) = advance req ?X"
    using sps by (simp add: handler_snoc handler_event_def)
  note pr = handler_promises[OF sp]
  have prX: "readyLog ?X = ready_wait (emitted (evs @ [ev]))"
    "triggerLogPromise ?X = triggers_wait (emitted (evs @ [ev]))"
    "exit ?X = first_exit (evs @ [ev])"
    using pr[of "evs @ [ev]"] by (simp_all add: he advance_def)
  have X: "runtimeReq ?X = None \<and> runtimeRes ?X = None \<and> phase ?X = phase ?st
      \<and> res ?X = (if phase ?st = Returned then ack_res else fatal_res (emitted (evs @ [ev])))"
  proof (cases ev)
    case (Log el)
    with on_log_closed[OF rs, of el] nr show ?thesis by simp
  next
    case (Exit c)
    with nr rs show ?thesis by simp
  next
    case (RuntimeResponse sc hs)
    with nr rs show ?thesis by simp
  next
    case (ResData buf)
    with nr rs show ?thesis by (simp add: on_res_data_def)
  next
    case ResClose
    with nr rs show ?thesis by (simp add: on_res_end_def)
  next
    case ResEnd
    with nr rs show ?thesis by (simp add: on_res_end_def)
  next
    case ReqError
    with nr rs show ?thesis by (simp add: on_error_def)
  next
    case PipeError
    with nr rs show ?thesis by (simp add: on_error_def)
  qed
  have nf: "find is_fatal (emitted (evs @ [ev])) = None
              \<longrightarrow> fatal_res (emitted (evs @ [ev])) = cors_response"
    by (simp add: fatal_res_none)
  have phX: "phase ?X
      = phase_of req (ready_wait (emitted evs)) (triggers_wait (emitted evs)) (first_exit evs)"
    using X ph by simp
  have rsX: "res ?X = (if phase ?X = Returned then ack_res else fatal_res (emitted (evs @ [ev])))"
    using X by simp
  have m: "settles (ready_wait (emitted evs)) (readyLog ?X)"
    "settles (triggers_wait (emitted evs)) (triggerLogPromise ?X)"
    "settles (first_exit evs) (exit ?X)"
    using waits_settle[of evs ev] by (simp_all only: prX)
  have dX: "undisturbed req (readyLog ?X) (triggerLogPromise ?X) (exit ?X)
              (find is_fatal (emitted (evs @ [ev])) = None)"
    using snoc.prems by (simp only: prX)
  from advance_closed[OF _ _ phX m rsX nf dX] X
  show ?case by (simp only: he prX)
qed

lemma handler_start_spawned_iff:
  "spawned (handler_start ext e req) \<noteq> []
     \<longleftrightarrow> rawBody req = [] \<or> JSON_parse ext (rawBody req) \<noteq> None"
  by (auto simp: handler_start_def handler_init_def Let_def split: option.splits)

lemma waits_closed:
  "ready_wait logs
     = (case find (matches ''SYSTEM'' ''runtime-status'' (Some is_ready)) logs of
          None \<Rightarrow> Pending | Some el \<Rightarrow> Fulfilled el)"
  "triggers_wait logs
     = (case find (matches ''SYSTEM'' ''triggers-parsed'' None) logs of
          None \<Rightarrow> Pending | Some el \<Rightarrow> Fulfilled el)"
  by (simp_all add: ready_wait_def triggers_wait_def waitForLog_def wait_from)

lemma fatal_res_status [simp]: "statusCode (fatal_res logs) = 200"
  by (simp add: fatal_res_def sent_def res_end_def flushHeaders_def Let_def cors_response_def
           split: option.splits)

section \<open>A worker that exits before it is ready\<close>

text \<open>
  Claim C5, as the code has it. While the worker has not emitted the record
  \<^verbatim>\<open>SYSTEM/runtime-status\<close> with text \<^verbatim>\<open>ready\<close>, whether or not it has exited, the
  \<^verbatim>\<open>ready\<close> promise of the runtime is pending, not failed, and the handler is still
  waiting for it: it has sent no error status. The response is untouched, or, if the
  worker emitted a FATAL record, ended with the text of the first one and status 200.
\<close>

theorem exit_before_ready_never_fails:
  assumes "rawBody req = [] \<or> JSON_parse ext (rawBody req) \<noteq> None"
    and "find (matches ''SYSTEM'' ''runtime-status'' (Some is_ready)) (emitted evs) = None"
  shows "InvokeRuntime_ready (emitted evs) = Pending
     \<and> phase (handler ext e req evs) = AwaitReady
     \<and> res (handler ext e req evs) = fatal_res (emitted evs)
     \<and> statusCode (res (handler ext e req evs)) = 200"
proof -
  from assms(2) have r: "ready_wait (emitted evs) = Pending" by (simp add: waits_closed)
  then have d: "undisturbed req (ready_wait (emitted evs)) (triggers_wait (emitted evs))
              (first_exit evs) (find is_fatal (emitted evs) = None)"
    by (simp add: undisturbed_def)
  from assms(1) have sp: "spawned (handler_start ext e req) \<noteq> []"
    by (simp add: handler_start_spawned_iff)
  from handler_closed[OF sp d] r
  have "phase (handler ext e req evs) = AwaitReady
     \<and> res (handler ext e req evs) = fatal_res (emitted evs)"
    by (simp add: phase_of_def)
  moreover from r have "InvokeRuntime_ready (emitted evs) = Pending"
    by (simp add: InvokeRuntime_ready_def ready_wait_def then_void_def)
  ultimately show ?thesis by simp
qed

theorem exit_before_ready_never_fails_witness:
  "(rawBody (example_request ''echo'' []) = []
      \<or> JSON_parse example_ext (rawBody (example_request ''echo'' [])) \<noteq> None)
   \<and> find (matches ''SYSTEM'' ''runtime-status'' (Some is_ready))
        (emitted [Log (parsed_log [echo_definition, onWrite_definition]), Exit 1]) = None
   \<and> InvokeRuntime_ready (emitted [Log (parsed_log [echo_definition, onWrite_definition]), Exit 1])
        = Pending
   \<and> phase (handler example_ext example_emulator (example_request ''echo'' [])
        [Log (parsed_log [echo_definition, onWrite_definition]), Exit 1]) = AwaitReady
   \<and> statusCode (res (handler example_ext example_emulator (example_request ''echo'' [])
        [Log (parsed_log [echo_definition, onWrite_definition]), Exit 1])) = 200"
proof -
  have a: "rawBody (example_request ''echo'' []) = []
      \<or> JSON_parse example_ext (rawBody (example_request ''echo'' [])) \<noteq> None"
    by (simp add: example_request_def)
  have b: "find (matches ''SYSTEM'' ''runtime-status'' (Some is_ready))
        (emitted [Log (parsed_log [echo_definition, onWrite_definition]), Exit 1]) = None"
    by (simp add: matches_def parsed_log_def)
  from exit_before_ready_never_fails[OF a b, of example_emulator] a b
  show ?thesis by simp
qed

text \<open>
  The claim as stated fails: the worker emits \<^verbatim>\<open>triggers-parsed\<close> and exits with code
  1 without becoming ready; the \<^verbatim>\<open>ready\<close> promise is pending, the handler waits and
  nothing is sent to the client.
\<close>

theorem exit_before_ready_counterexample:
  "InvokeRuntime_ready (emitted [Log (parsed_log [echo_definition, onWrite_definition]), Exit 1])
     = Pending
   \<and> phase (handler example_ext example_emulator (example_request ''echo'' [])
        [Log (parsed_log [echo_definition, onWrite_definition]), Exit 1]) = AwaitReady
   \<and> wire (res (handler example_ext example_emulator (example_request ''echo'' [])
        [Log (parsed_log [echo_definition, onWrite_definition]), Exit 1])) = []"
  by code_simp

section \<open>A trigger that is not in the trigger map\<close>

text \<open>
  Claim C3, as the code has it. When the runtime is ready and the requested name is not
  in the trigger map of the \<^verbatim>\<open>triggers-parsed\<close> record, reading
  \<^verbatim>\<open>trigger.definition\<close> throws a TypeError: the handler's promise is rejected, no
  request is made to the worker, and the handler sends no error status. The response is
  untouched, or, if the worker emitted a FATAL record, ended with the text of the first
  one and status 200.
\<close>

theorem unknown_trigger_throws_TypeError:
  assumes "rawBody req = [] \<or> JSON_parse ext (rawBody req) \<noteq> None"
    and "ready_wait (emitted evs) = Fulfilled rl"
    and "triggers_wait (emitted evs) = Fulfilled el"
    and "lookup_trigger req el = None"
  shows "phase (handler ext e req evs) = Threw TypeError
     \<and> runtimeReq (handler ext e req evs) = None
     \<and> res (handler ext e req evs) = fatal_res (emitted evs)
     \<and> statusCode (res (handler ext e req evs)) = 200"
proof -
  from assms(2,3,4)
  have d: "undisturbed req (ready_wait (emitted evs)) (triggers_wait (emitted evs))
              (first_exit evs) (find is_fatal (emitted evs) = None)"
    by (simp add: undisturbed_def)
  from assms(1) have sp: "spawned (handler_start ext e req) \<noteq> []"
    by (simp add: handler_start_spawned_iff)
  from handler_closed[OF sp d] assms(2,3,4)
  have "phase (handler ext e req evs) = Threw TypeError
     \<and> runtimeReq (handler ext e req evs) = None
     \<and> res (handler ext e req evs) = fatal_res (emitted evs)"
    by (simp add: phase_of_def)
  then show ?thesis by simp
qed

theorem unknown_trigger_throws_TypeError_witness:
  "(rawBody (example_request ''ghost'' []) = []
      \<or> JSON_parse example_ext (rawBody (example_request ''ghost'' [])) \<noteq> None)
   \<and> ready_wait (emitted [Log (parsed_log [echo_definition]), Log ready_log, Exit 0])
        = Fulfilled ready_log
   \<and> triggers_wait (emitted [Log (parsed_log [echo_definition]), Log ready_log, Exit 0])
        = Fulfilled (parsed_log [echo_definition])
   \<and> lookup_trigger (example_request ''ghost'' []) (parsed_log [echo_definition]) = None
   \<and> phase (handler example_ext example_emulator (example_request ''ghost'' [])
        [Log (parsed_log [echo_definition]), Log ready_log, Exit 0]) = Threw TypeError
   \<and> statusCode (res (handler example_ext example_emulator (example_request ''ghost'' [])
        [Log (parsed_log [echo_definition]), Log ready_log, Exit 0])) = 200"
proof -
  have a: "rawBody (example_request ''ghost'' []) = []
      \<or> JSON_parse example_ext (rawBody (example_request ''ghost'' [])) \<noteq> None"
    by (simp add: example_request_def)
  have b: "ready_wait (emitted [Log (parsed_log [echo_definition]), Log ready_log, Exit 0])
        = Fulfilled ready_log"
    by code_simp
  have c: "triggers_wait (emitted [Log (parsed_log [echo_definition]), Log ready_log, Exit 0])
        = Fulfilled (parsed_log [echo_definition])"
    by code_simp
  have d: "lookup_trigger (example_request ''ghost'' []) (parsed_log [echo_definition]) = None"
    by code_simp
  from unknown_trigger_throws_TypeError[OF a b c d, of example_emulator] a b c d
  show ?thesis by simp
qed

text \<open>
  The claim as stated fails: the trigger map holds \<^verbatim>\<open>echo\<close> only and the request is
  for \<^verbatim>\<open>ghost\<close>; the handler throws and nothing is sent to the client.
\<close>

theorem unknown_trigger_counterexample:
  "phase (handler example_ext example_emulator (example_request ''ghost'' [])
      [Log (parsed_log [echo_definition]), Log ready_log, Exit 0]) = Threw TypeError
   \<and> wire (res (handler example_ext example_emulator (example_request ''ghost'' [])
      [Log (parsed_log [echo_definition]), Log ready_log, Exit 0])) = []"
  by code_simp

section \<open>Background triggers\<close>

text \<open>
  Claim C2, as the code has it. For a request to a trigger that is in the trigger map of
  the \<^verbatim>\<open>triggers-parsed\<close> record and is not an HTTP trigger, and a worker that emits
  no FATAL record: the client is sent status 200 with the body
  \<^verbatim>\<open>{"status":"acknowledged"}\<close> exactly when the worker has become ready and has
  exited, whatever the exit code, and is sent nothing before that.
\<close>

theorem background_trigger_acknowledged_after_exit:
  assumes "rawBody req = [] \<or> JSON_parse ext (rawBody req) \<noteq> None"
    and "triggers_wait (emitted evs) = Fulfilled el"
    and "lookup_trigger req el = Some trigger"
    and "\<not> httpsTrigger (trigger_definition trigger)"
    and "find is_fatal (emitted evs) = None"
  shows "wire (res (handler ext e req evs))
           = (if ready_wait (emitted evs) \<noteq> Pending \<and> exit_codes evs \<noteq> []
              then [WHead 200 (headers ack_res), WBody acknowledged, WEnd] else [])"
proof -
  from assms(2-5)
  have d: "undisturbed req (ready_wait (emitted evs)) (triggers_wait (emitted evs))
              (first_exit evs) (find is_fatal (emitted evs) = None)"
    by (simp add: undisturbed_def split: promise.splits)
  from assms(1) have sp: "spawned (handler_start ext e req) \<noteq> []"
    by (simp add: handler_start_spawned_iff)
  have w: "wire ack_res = [WHead 200 (headers ack_res), WBody acknowledged, WEnd]"
    by (simp add: ack_res_def sent_def res_end_def flushHeaders_def Let_def)
  have ex: "(\<exists>c. first_exit evs = Fulfilled c) \<longleftrightarrow> exit_codes evs \<noteq> []"
    by (simp add: first_exit_def split: list.splits)
  have fe: "first_exit evs = Pending \<or> (\<exists>c. first_exit evs = Fulfilled c)"
    by (simp add: first_exit_def split: list.splits)
  have rw: "ready_wait (emitted evs) = Pending \<or> (\<exists>r. ready_wait (emitted evs) = Fulfilled r)"
    by (simp add: waits_closed split: option.splits)
  from handler_closed[OF sp d] assms(2,3,4)
  have p: "phase (handler ext e req evs)
         = (case ready_wait (emitted evs) of
              Pending \<Rightarrow> AwaitReady
            | Rejected err \<Rightarrow> Threw err
            | Fulfilled _ \<Rightarrow>
                (case first_exit evs of Fulfilled _ \<Rightarrow> Returned | _ \<Rightarrow> AwaitExitBackground))"
    and r: "res (handler ext e req evs)
         = (if phase (handler ext e req evs) = Returned then ack_res else fatal_res (emitted evs))"
    by (simp_all add: phase_of_def split: promise.splits)
  from assms(5) have f: "fatal_res (emitted evs) = cors_response" by (simp add: fatal_res_none)
  from rw fe show ?thesis
    using p r f w ex by (auto split: promise.splits)
qed

theorem background_trigger_acknowledged_after_exit_witness:
  "(rawBody (example_request ''onWrite'' ''{}'') = []
      \<or> JSON_parse example_ext (rawBody (example_request ''onWrite'' ''{}'')) \<noteq> None)
   \<and> triggers_wait
        (emitted [Log (parsed_log [echo_definition, onWrite_definition]), Log ready_log, Exit 3])
        = Fulfilled (parsed_log [echo_definition, onWrite_definition])
   \<and> lookup_trigger (example_request ''onWrite'' ''{}'')
        (parsed_log [echo_definition, onWrite_definition])
        = Some \<lparr>trigger_definition = onWrite_definition\<rparr>
   \<and> \<not> httpsTrigger (trigger_definition \<lparr>trigger_definition = onWrite_definition\<rparr>)
   \<and> find is_fatal
        (emitted [Log (parsed_log [echo_definition, onWrite_definition]), Log ready_log, Exit 3])
        = None
   \<and> wire (res (handler example_ext example_emulator (example_request ''onWrite'' ''{}'')
        [Log (parsed_log [echo_definition, onWrite_definition]), Log ready_log, Exit 3]))
        = [WHead 200 (headers ack_res), WBody acknowledged, WEnd]
   \<and> wire (res (handler example_ext example_emulator (example_request ''onWrite'' ''{}'')
        [Log (parsed_log [echo_definition, onWrite_definition]), Log ready_log])) = []"
proof -
  let ?evs = "[Log (parsed_log [echo_definition, onWrite_definition]), Log ready_log, Exit 3]"
  let ?evs' = "[Log (parsed_log [echo_definition, onWrite_definition]), Log ready_log]"
  have a: "rawBody (example_request ''onWrite'' ''{}'') = []
      \<or> JSON_parse example_ext (rawBody (example_request ''onWrite'' ''{}'')) \<noteq> None"
    by code_simp
  have b: "triggers_wait (emitted ?evs)
             = Fulfilled (parsed_log [echo_definition, onWrite_definition])"
    by code_simp
  have b': "triggers_wait (emitted ?evs')
             = Fulfilled (parsed_log [echo_definition, onWrite_definition])"
    by code_simp
  have c: "lookup_trigger (example_request ''onWrite'' ''{}'')
        (parsed_log [echo_definition, onWrite_definition])
        = Some \<lparr>trigger_definition = onWrite_definition\<rparr>"
    by code_simp
  have d: "\<not> httpsTrigger (trigger_definition \<lparr>trigger_definition = onWrite_definition\<rparr>)"
    by code_simp
  have f: "find is_fatal (emitted ?evs) = None" by code_simp
  have f': "find is_fatal (emitted ?evs') = None" by code_simp
  have r: "ready_wait (emitted ?evs) \<noteq> Pending \<and> exit_codes ?evs \<noteq> []" by code_simp
  have r': "exit_codes ?evs' = []" by simp
  from background_trigger_acknowledged_after_exit[OF a b c d f, of example_emulator]
       background_trigger_acknowledged_after_exit[OF a b' c d f', of example_emulator]
       a b c d f r r'
  show ?thesis by simp
qed

text \<open>
  The claim as stated fails: the worker of the background trigger \<^verbatim>\<open>onWrite\<close> emits a
  FATAL record with text \<^verbatim>\<open>boom\<close>. The client is sent \<^verbatim>\<open>boom\<close> before any exit
  of the worker, and when the worker exits afterwards the acknowledgement throws and
  nothing more is sent.
\<close>

theorem background_trigger_counterexample:
  "exit_codes [Log (parsed_log [echo_definition, onWrite_definition]), Log ready_log,
               Log (example_log ''FATAL'' ''log'' ''boom'')] = []
   \<and> wire (res (handler example_ext example_emulator (example_request ''onWrite'' ''{}'')
        [Log (parsed_log [echo_definition, onWrite_definition]), Log ready_log,
         Log (example_log ''FATAL'' ''log'' ''boom'')]))
      = [WHead 200
           [(''Access-Control-Allow-Origin'', ''*''),
            (''Access-Control-Allow-Headers'',
             ''Origin, X-Requested-With, Content-Type, Authorization, Accept''),
            (''Access-Control-Allow-Methods'', ''GET,OPTIONS,POST''),
            (''Content-Type'', ''text/html; charset=utf-8''),
            (''Content-Length'', ''4'')],
         WBody ''boom'', WEnd]
   \<and> phase (handler example_ext example_emulator (example_request ''onWrite'' ''{}'')
        [Log (parsed_log [echo_definition, onWrite_definition]), Log ready_log,
         Log (example_log ''FATAL'' ''log'' ''boom''), Log killed_log, Exit 1])
      = Threw ERR_HTTP_HEADERS_SENT
   \<and> wire (res (handler example_ext example_emulator (example_request ''onWrite'' ''{}'')
        [Log (parsed_log [echo_definition, onWrite_definition]), Log ready_log,
         Log (example_log ''FATAL'' ''log'' ''boom''), Log killed_log, Exit 1]))
      = wire (res (handler example_ext example_emulator (example_request ''onWrite'' ''{}'')
        [Log (parsed_log [echo_definition, onWrite_definition]), Log ready_log,
         Log (example_log ''FATAL'' ''log'' ''boom'')]))"
  by code_simp

section \<open>The request body\<close>

text \<open>
  Claim C4, as the code has it. An empty body gives the runtime an undefined
  \<^verbatim>\<open>proto\<close>, a non-empty body that parses gives it the parsed value. A request to an
  event trigger whose non-empty body is not valid JSON makes \<^verbatim>\<open>JSON.parse\<close> throw a
  SyntaxError before any runtime is started: the handler's promise is rejected and the
  handler sends nothing, no error status either.
\<close>

theorem body_parsed_before_spawn:
  "(rawBody req = [] \<longrightarrow>
      spawned (handler ext e req evs) = [startFunctionRuntime ext e (trigger_name req) None])
   \<and> (rawBody req \<noteq> [] \<and> JSON_parse ext (rawBody req) = Some j \<longrightarrow>
      spawned (handler ext e req evs) = [startFunctionRuntime ext e (trigger_name req) (Some j)])
   \<and> (rawBody req \<noteq> [] \<and> JSON_parse ext (rawBody req) = None
        \<and> d \<in> set (triggers e) \<and> name d = trigger_name req \<and> \<not> httpsTrigger d \<longrightarrow>
      handler ext e req evs = handler_init\<lparr>phase := Threw SyntaxError\<rparr>
      \<and> spawned (handler ext e req evs) = []
      \<and> wire (res (handler ext e req evs)) = [])"
proof (intro conjI impI)
  assume "rawBody req = []"
  then show "spawned (handler ext e req evs) = [startFunctionRuntime ext e (trigger_name req) None]"
    by (simp add: handler_spawned handler_start_def Let_def)
next
  assume "rawBody req \<noteq> [] \<and> JSON_parse ext (rawBody req) = Some j"
  then show "spawned (handler ext e req evs)
               = [startFunctionRuntime ext e (trigger_name req) (Some j)]"
    by (simp add: handler_spawned handler_start_def Let_def)
next
  assume a: "rawBody req \<noteq> [] \<and> JSON_parse ext (rawBody req) = None
               \<and> d \<in> set (triggers e) \<and> name d = trigger_name req \<and> \<not> httpsTrigger d"
  then have s: "handler_start ext e req = handler_init\<lparr>phase := Threw SyntaxError\<rparr>"
    by (simp add: handler_start_def Let_def)
  then have "spawned (handler_start ext e req) = []" by (simp add: handler_init_def)
  from handler_no_runtime[OF this] s
  show h: "handler ext e req evs = handler_init\<lparr>phase := Threw SyntaxError\<rparr>" by simp
  then show "spawned (handler ext e req evs) = []" by (simp add: handler_init_def)
  from h show "wire (res (handler ext e req evs)) = []" by (simp add: handler_init_def)
qed

theorem body_parsed_before_spawn_witness:
  "rawBody (example_request ''echo'' []) = []
   \<and> proto (hd (spawned (handler example_ext loaded_emulator (example_request ''echo'' [])
        [Log ready_log]))) = None
   \<and> rawBody (example_request ''onWrite'' ''null'') \<noteq> []
   \<and> JSON_parse example_ext (rawBody (example_request ''onWrite'' ''null'')) = Some JNull
   \<and> proto (hd (spawned (handler example_ext loaded_emulator (example_request ''onWrite'' ''null'')
        [Log ready_log]))) = Some JNull
   \<and> rawBody (example_request ''onWrite'' ''{\"value\":'') \<noteq> []
   \<and> JSON_parse example_ext (rawBody (example_request ''onWrite'' ''{\"value\":'')) = None
   \<and> onWrite_definition \<in> set (triggers loaded_emulator)
   \<and> name onWrite_definition = trigger_name (example_request ''onWrite'' ''{\"value\":'')
   \<and> \<not> httpsTrigger onWrite_definition
   \<and> phase (handler example_ext loaded_emulator (example_request ''onWrite'' ''{\"value\":'') [])
        = Threw SyntaxError
   \<and> spawned (handler example_ext loaded_emulator (example_request ''onWrite'' ''{\"value\":'') [])
        = []
   \<and> wire (res (handler example_ext loaded_emulator (example_request ''onWrite'' ''{\"value\":'')
        [])) = []"
proof -
  have a: "rawBody (example_request ''echo'' []) = []" by (simp add: example_request_def)
  have b: "rawBody (example_request ''onWrite'' ''null'') \<noteq> []
     \<and> JSON_parse example_ext (rawBody (example_request ''onWrite'' ''null'')) = Some JNull"
    by code_simp
  have c: "rawBody (example_request ''onWrite'' ''{\"value\":'') \<noteq> []
     \<and> JSON_parse example_ext (rawBody (example_request ''onWrite'' ''{\"value\":'')) = None"
    by code_simp
  have d: "onWrite_definition \<in> set (triggers loaded_emulator)
     \<and> name onWrite_definition = trigger_name (example_request ''onWrite'' ''{\"value\":'')
     \<and> \<not> httpsTrigger onWrite_definition"
    by (simp add: loaded_emulator_def onWrite_definition_def example_request_def)
  from body_parsed_before_spawn
         [of "example_request ''echo'' []" example_ext loaded_emulator "[Log ready_log]"]
       body_parsed_before_spawn
         [of "example_request ''onWrite'' ''null''" example_ext loaded_emulator "[Log ready_log]"
             JNull]
       body_parsed_before_spawn
         [of "example_request ''onWrite'' ''{\"value\":''" example_ext loaded_emulator "[]" _
             onWrite_definition]
       a b c d
  show ?thesis by (simp add: startFunctionRuntime_def handler_init_def)
qed

text \<open>
  The claim as stated fails: the emulator has loaded the Firestore trigger
  \<^verbatim>\<open>onWrite\<close>; a request to it whose body is not valid JSON leaves the handler with a
  SyntaxError, no runtime and nothing sent to the client: no status line, so no 4xx.
\<close>

theorem bad_payload_counterexample:
  "onWrite_definition \<in> set (triggers loaded_emulator)
   \<and> \<not> httpsTrigger onWrite_definition
   \<and> trigger_name (example_request ''onWrite'' ''{path:/a'') = name onWrite_definition
   \<and> JSON_parse example_ext (rawBody (example_request ''onWrite'' ''{path:/a'')) = None
   \<and> phase (handler example_ext loaded_emulator (example_request ''onWrite'' ''{path:/a'') [])
        = Threw SyntaxError
   \<and> wire (res (handler example_ext loaded_emulator (example_request ''onWrite'' ''{path:/a'') []))
        = []
   \<and> spawned (handler example_ext loaded_emulator (example_request ''onWrite'' ''{path:/a'') [])
        = []"
  by code_simp

end
